theory Spec2Isabelle
  imports Main
begin

text \<open>
  The deployment manager of the agent platform (\<^verbatim>\<open>DeploymentManager\<close>: descriptor
  generator, configuration and descriptor writers, deploy pipeline, health monitor,
  tear-down) and the three routes of the server that stop, pause and follow the logs
  of an agent, embedded as functions on an explicit state, with the properties the
  specification claims of them.
\<close>

section \<open>JavaScript primitives used by the deployment manager\<close>

text \<open>
  Strings are lists of code units below 256 (\<^typ>\<open>string\<close>); agent ids are UUIDs in
  the running system, but the manager accepts any string, and so does the model.
  A JavaScript number that the code computes here is an integer or \<open>NaN\<close>:
  \<open>None\<close> stands for \<open>NaN\<close>.
\<close>

type_synonym js_number = "int option"

text \<open>\<^verbatim>\<open>s.slice(-n)\<close>: the last \<open>n\<close> code units, the whole string when it is shorter.\<close>

definition slice_last :: "nat \<Rightarrow> string \<Rightarrow> string" where
  "slice_last n s = drop (length s - n) s"

text \<open>The white space and line terminators that \<^verbatim>\<open>parseInt\<close> skips, below 256.\<close>

definition is_white_space :: "char \<Rightarrow> bool" where
  "is_white_space c =
     (c = CHR 0x09 \<or> c = CHR 0x0A \<or> c = CHR 0x0B \<or> c = CHR 0x0C \<or> c = CHR 0x0D
      \<or> c = CHR 0x20 \<or> c = CHR 0xA0)"

definition hex_digit :: "char \<Rightarrow> nat option" where
  "hex_digit c =
     (let n = (of_char c :: nat) in
      if 48 \<le> n \<and> n \<le> 57 then Some (n - 48)
      else if 97 \<le> n \<and> n \<le> 102 then Some (n - 87)
      else if 65 \<le> n \<and> n \<le> 70 then Some (n - 55)
      else None)"

definition is_hex :: "char \<Rightarrow> bool" where
  "is_hex c = (hex_digit c \<noteq> None)"

definition hex_value :: "string \<Rightarrow> nat" where
  "hex_value z = foldl (\<lambda>acc c. 16 * acc + (case hex_digit c of Some d \<Rightarrow> d | None \<Rightarrow> 0)) 0 z"

text \<open>
  \<^verbatim>\<open>parseInt(s, 16)\<close> as ECMAScript defines it: leading white space is dropped, one
  sign is read, one \<^verbatim>\<open>0x\<close> or \<^verbatim>\<open>0X\<close> prefix is dropped, the longest run of hexadecimal
  digits is the value, and no digit at all gives \<open>NaN\<close>.
\<close>

definition strip_sign :: "string \<Rightarrow> int \<times> string" where
  "strip_sign s =
     (case s of
        [] \<Rightarrow> (1, [])
      | c # cs \<Rightarrow> if c = CHR ''-'' then (- 1, cs) else if c = CHR ''+'' then (1, cs) else (1, s))"

definition strip_hex_prefix :: "string \<Rightarrow> string" where
  "strip_hex_prefix s =
     (case s of
        a # b # rest \<Rightarrow> if a = CHR ''0'' \<and> (b = CHR ''x'' \<or> b = CHR ''X'') then rest else s
      | _ \<Rightarrow> s)"

definition parseInt16 :: "string \<Rightarrow> js_number" where
  "parseInt16 s =
     (let (sign, s1) = strip_sign (dropWhile is_white_space s);
          z = takeWhile is_hex (strip_hex_prefix s1)
      in if z = [] then None else Some (sign * int (hex_value z)))"

text \<open>The remainder operator \<^verbatim>\<open>%\<close>: the result has the sign of the dividend.\<close>

definition js_rem :: "int \<Rightarrow> int \<Rightarrow> int" where
  "js_rem a b = sgn a * (\<bar>a\<bar> mod \<bar>b\<bar>)"

text \<open>A number inside a template literal: decimal digits, a minus sign, or \<^verbatim>\<open>NaN\<close>.\<close>

fun string_of_nat :: "nat \<Rightarrow> string" where
  "string_of_nat n =
     (if n < 10 then [char_of (48 + n)]
      else string_of_nat (n div 10) @ [char_of (48 + n mod 10)])"

definition string_of_number :: "js_number \<Rightarrow> string" where
  "string_of_number x =
     (case x of
        None \<Rightarrow> ''NaN''
      | Some i \<Rightarrow> if i < 0 then ''-'' @ string_of_nat (nat (- i)) else string_of_nat (nat i))"

section \<open>The descriptor generator\<close>

text \<open>
  The published port, as \<^verbatim>\<open>generateDockerCompose\<close> writes it (line 34) and as
  \<^verbatim>\<open>deployAgent\<close> writes it again (line 172):
  \<^verbatim>\<open>3100 + parseInt(agentId.slice(-3), 16) % 900\<close>.
\<close>

definition compose_port :: "string \<Rightarrow> js_number" where
  "compose_port agentId =
     (case parseInt16 (slice_last 3 agentId) of
        None \<Rightarrow> None
      | Some v \<Rightarrow> Some (3100 + js_rem v 900))"

definition deploy_port :: "string \<Rightarrow> js_number" where
  "deploy_port agentId =
     (case parseInt16 (slice_last 3 agentId) of
        None \<Rightarrow> None
      | Some v \<Rightarrow> Some (3100 + js_rem v 900))"

text \<open>
  The agent configuration: \<^verbatim>\<open>generateDockerCompose\<close> reads \<^verbatim>\<open>mcp_clients\<close> (default
  \<^verbatim>\<open>[]\<close>) and \<^verbatim>\<open>agent_name\<close> from it and uses neither.
\<close>

record agent_config =
  agent_name :: string
  mcp_clients :: "string list"

record healthcheck =
  test :: "string list"
  interval :: string
  timeout :: string
  retries :: nat
  start_period :: string

record service =
  service_key :: string
  build_context :: string
  build_dockerfile :: string
  container_name :: string
  environment :: "string list"
  volumes :: "string list"
  ports :: "string list"
  service_healthcheck :: healthcheck
  restart :: string
  service_networks :: "string list"

record compose =
  services :: "service list"
  networks :: "(string \<times> string) list"

text \<open>
  What the manager takes from the platform: the directories it derives from
  \<^verbatim>\<open>__dirname\<close>, a constant of the running process (\<^verbatim>\<open>../agent-configs\<close>,
  \<^verbatim>\<open>../deployments\<close> and \<^verbatim>\<open>../runtime-agent\<close>, each joined to it), and the two functions
  of Node's \<^verbatim>\<open>path\<close> module that it calls on agent ids, \<^verbatim>\<open>path.join\<close> and
  \<^verbatim>\<open>path.dirname\<close>. They are parameters: every property below holds whatever the two
  functions compute.
\<close>

record dirs =
  configDir :: string
  composeDir :: string
  deploymentDir :: string
  path_join :: "string \<Rightarrow> string \<Rightarrow> string"
  path_dirname :: "string \<Rightarrow> string"

definition generateDockerCompose :: "dirs \<Rightarrow> string \<Rightarrow> agent_config \<Rightarrow> compose" where
  "generateDockerCompose d agentId agentConfig =
     \<lparr> services =
         [\<lparr> service_key = ''agent-'' @ agentId,
            build_context = ''../runtime-agent'',
            build_dockerfile = ''Dockerfile'',
            container_name = ''superior-agent-'' @ agentId,
            environment = [''AGENT_CONFIG_PATH=/app/config.json'', ''AGENT_PORT=8000''],
            volumes = [configDir d @ ''/'' @ agentId @ ''.json:/app/config.json:ro''],
            ports = [string_of_number (compose_port agentId) @ '':8000''],
            service_healthcheck =
              \<lparr> test = [''CMD'', ''curl'', ''-f'', ''http://localhost:8000/health''],
                interval = ''30s'', timeout = ''10s'', retries = 3, start_period = ''40s'' \<rparr>,
            restart = ''unless-stopped'',
            service_networks = [''superior-agents''] \<rparr>],
       networks = [(''superior-agents'', ''bridge'')] \<rparr>"

section \<open>Errors, effects and the manager's state\<close>

text \<open>
  An exception is a value: its \<^verbatim>\<open>message\<close> is all the code reads of it. Every awaited
  promise is taken to settle; what it settles with is the environment's choice.
\<close>

datatype js_error = JsError (message: string)

record exec_output =
  stdout :: string
  stderr :: string

record response =
  ok :: bool
  response_status :: nat

text \<open>What a file is written with: the value serialised, not its text.\<close>

datatype file_content = ConfigJson agent_config | ComposeYaml compose

text \<open>
  The calls the code makes to the file system, the shell, the network and the timer.
  \<open>Exec\<close> carries the command line and the \<^verbatim>\<open>cwd\<close> option when one is given.
\<close>

datatype effect =
    Mkdir string
  | Stat string
  | Rmdir string
  | WriteFile string file_content
  | Access string
  | Exec string "string option"
  | Fetch string
  | ReadText string
  | Sleep nat
  | WriteAgentsDb

text \<open>An entry of \<^verbatim>\<open>runningAgents\<close>, the in-memory registry.\<close>

record running_agent =
  url :: string
  composePath :: string
  status :: string
  deployedAt :: string

record world =
  runningAgents :: "string \<rightharpoonup> running_agent"
  trace :: "effect list"

text \<open>
  The environment gives the outcome of each call site of one operation: \<open>Inl\<close> is
  the rejection, \<open>Inr\<close> the value. In the order of the fields: \<^verbatim>\<open>fs.mkdir\<close> (line 67),
  \<^verbatim>\<open>fs.stat\<close> and its \<^verbatim>\<open>isDirectory()\<close> (73), \<^verbatim>\<open>fs.rmdir\<close> (75), \<^verbatim>\<open>fs.writeFile\<close> (82) and
  the \<^verbatim>\<open>fs.stat\<close> that reads the size (85) in \<^verbatim>\<open>saveAgentConfig\<close>; \<^verbatim>\<open>fs.mkdir\<close> (94) and
  \<^verbatim>\<open>fs.writeFile\<close> (98) in \<^verbatim>\<open>saveDockerCompose\<close>; \<^verbatim>\<open>docker build\<close> (152) and
  \<^verbatim>\<open>docker-compose up\<close> (162) in \<^verbatim>\<open>deployAgent\<close>; the \<^verbatim>\<open>fetch\<close> (225) and the
  \<^verbatim>\<open>response.text()\<close> (230) of each attempt of \<^verbatim>\<open>waitForHealth\<close>, indexed by the attempt
  number; the clock read for \<^verbatim>\<open>deployedAt\<close> (183); \<^verbatim>\<open>fs.access\<close> (274) and
  \<^verbatim>\<open>docker-compose down\<close> (275) in \<^verbatim>\<open>stopAgent\<close>; and the \<^verbatim>\<open>fs.writeFile\<close> of the server's
  \<^verbatim>\<open>saveAgents\<close>.
\<close>

record env =
  config_mkdir :: "js_error + unit"
  config_stat :: "js_error + bool"
  config_rmdir :: "js_error + unit"
  config_write :: "js_error + unit"
  config_size :: "js_error + nat"
  compose_mkdir :: "js_error + unit"
  compose_write :: "js_error + unit"
  docker_build :: "js_error + exec_output"
  compose_up :: "js_error + exec_output"
  probe :: "int \<Rightarrow> js_error + response"
  probe_text :: "int \<Rightarrow> js_error + string"
  deployed_now :: string
  compose_access :: "js_error + unit"
  compose_down :: "js_error + exec_output"
  agents_db_write :: "js_error + unit"

type_synonym 'a io = "world \<Rightarrow> (js_error + 'a) \<times> world"

definition io_return :: "'a \<Rightarrow> 'a io" where
  "io_return x = (\<lambda>w. (Inr x, w))"

definition io_throw :: "js_error \<Rightarrow> 'a io" where
  "io_throw e = (\<lambda>w. (Inl e, w))"

definition io_bind :: "'a io \<Rightarrow> ('a \<Rightarrow> 'b io) \<Rightarrow> 'b io" where
  "io_bind m f = (\<lambda>w. case m w of (Inl e, w1) \<Rightarrow> (Inl e, w1) | (Inr x, w1) \<Rightarrow> f x w1)"

definition io_catch :: "'a io \<Rightarrow> (js_error \<Rightarrow> 'a io) \<Rightarrow> 'a io" where
  "io_catch m h = (\<lambda>w. case m w of (Inl e, w1) \<Rightarrow> h e w1 | (Inr x, w1) \<Rightarrow> (Inr x, w1))"

text \<open>An awaited call: the effect is recorded and its outcome is the environment's.\<close>

definition perform :: "effect \<Rightarrow> js_error + 'a \<Rightarrow> 'a io" where
  "perform e outcome = (\<lambda>w. (outcome, w\<lparr>trace := trace w @ [e]\<rparr>))"

definition set_agent :: "string \<Rightarrow> running_agent \<Rightarrow> unit io" where
  "set_agent agentId entry = (\<lambda>w. (Inr (), w\<lparr>runningAgents := (runningAgents w)(agentId \<mapsto> entry)\<rparr>))"

definition delete_agent :: "string \<Rightarrow> unit io" where
  "delete_agent agentId = (\<lambda>w. (Inr (), w\<lparr>runningAgents := (runningAgents w)(agentId := None)\<rparr>))"

section \<open>Writing the configuration and the descriptor\<close>

text \<open>
  \<^verbatim>\<open>saveAgentConfig\<close>: a failure of \<^verbatim>\<open>stat\<close> or of \<^verbatim>\<open>rmdir\<close> is caught and ignored; the
  second \<^verbatim>\<open>stat\<close>, which only feeds a log line, is not guarded.
\<close>

definition saveAgentConfig :: "env \<Rightarrow> dirs \<Rightarrow> string \<Rightarrow> agent_config \<Rightarrow> string io" where
  "saveAgentConfig env d agentId config =
     (let configPath = path_join d (configDir d) (agentId @ ''.json'') in
      io_bind (perform (Mkdir (configDir d)) (config_mkdir env)) (\<lambda>_.
      io_bind
        (io_catch
           (io_bind (perform (Stat configPath) (config_stat env)) (\<lambda>isDirectory.
              if isDirectory then perform (Rmdir configPath) (config_rmdir env)
              else io_return ()))
           (\<lambda>err. io_return ())) (\<lambda>_.
      io_bind (perform (WriteFile configPath (ConfigJson config)) (config_write env)) (\<lambda>_.
      io_bind (perform (Stat configPath) (config_size env)) (\<lambda>size_in_bytes.
      io_return configPath)))))"

definition saveDockerCompose :: "env \<Rightarrow> dirs \<Rightarrow> string \<Rightarrow> compose \<Rightarrow> string io" where
  "saveDockerCompose env d agentId c =
     (let path = path_join d (composeDir d) (agentId @ ''-compose.yml'') in
      io_bind (perform (Mkdir (composeDir d)) (compose_mkdir env)) (\<lambda>_.
      io_bind (perform (WriteFile path (ComposeYaml c)) (compose_write env)) (\<lambda>_.
      io_return path)))"

section \<open>The health monitor\<close>

text \<open>\<^verbatim>\<open>s.includes(t)\<close> and \<^verbatim>\<open>s.split(c)\<close> for a one-character separator.\<close>

fun includes_str :: "string \<Rightarrow> string \<Rightarrow> bool" where
  "includes_str [] t = (t = [])"
| "includes_str (c # cs) t = (take (length t) (c # cs) = t \<or> includes_str cs t)"

fun split_on :: "char \<Rightarrow> string \<Rightarrow> string list" where
  "split_on sep [] = [[]]"
| "split_on sep (c # cs) =
     (if c = sep then [] # split_on sep cs
      else (case split_on sep cs of
              [] \<Rightarrow> [[c]]
            | p # ps \<Rightarrow> (c # p) # ps))"

text \<open>
  Line 243 destructures a property named \<^verbatim>\<open>execAsync\<close> out of the function that
  \<^verbatim>\<open>promisify(exec)\<close> returns. A function object has no such property, so the
  binding that shadows the module's \<^verbatim>\<open>execAsync\<close> inside this block is \<^verbatim>\<open>undefined\<close>.
\<close>

definition promisified_exec_property :: "string \<Rightarrow> (string \<Rightarrow> exec_output io) option" where
  "promisified_exec_property name = None"

text \<open>
  Lines 243 to 246, the body of the inner \<^verbatim>\<open>try\<close>: calling \<^verbatim>\<open>undefined\<close> raises a
  \<^verbatim>\<open>TypeError\<close> before any command is run.
\<close>

definition fetch_container_logs :: "string \<Rightarrow> exec_output io" where
  "fetch_container_logs agentUrl =
     (let execAsync = promisified_exec_property ''execAsync'';
          containerName =
            (if includes_str agentUrl ''3100''
             then (case drop 2 (split_on CHR '':'' agentUrl) of
                     [] \<Rightarrow> ''undefined''
                   | p # _ \<Rightarrow> p)
             else ''unknown'')
      in case execAsync of
           None \<Rightarrow> io_throw (JsError ''execAsync is not a function'')
         | Some run \<Rightarrow>
             run (''docker logs --tail 10 superior-agent-'' @ containerName
                  @ '' 2>&1 || echo \"No logs available\"''))"

text \<open>
  One pass through the loop body up to the sleep: \<open>True\<close> is the \<^verbatim>\<open>return true\<close>,
  \<open>False\<close> falls through to the sleep. Nothing escapes the \<^verbatim>\<open>try\<close>.
\<close>

definition health_attempt :: "env \<Rightarrow> string \<Rightarrow> int \<Rightarrow> bool io" where
  "health_attempt env agentUrl attempt =
     io_catch
       (io_bind (perform (Fetch (agentUrl @ ''/health'')) (probe env attempt)) (\<lambda>resp.
          if ok resp
          then io_bind (perform (ReadText (agentUrl @ ''/health'')) (probe_text env attempt))
                 (\<lambda>healthData. io_return True)
          else io_return False))
       (\<lambda>err.
          io_bind
            (if attempt mod 5 = 0
             then io_catch (io_bind (fetch_container_logs agentUrl) (\<lambda>logs. io_return ()))
                    (\<lambda>logError. io_return ())
             else io_return ())
            (\<lambda>_. io_return False))"

function health_loop :: "env \<Rightarrow> string \<Rightarrow> int \<Rightarrow> int \<Rightarrow> bool io" where
  "health_loop env agentUrl maxAttempts attempt w =
     (if attempt \<le> maxAttempts
      then (case health_attempt env agentUrl attempt w of
              (Inl e, w1) \<Rightarrow> (Inl e, w1)
            | (Inr True, w1) \<Rightarrow> (Inr True, w1)
            | (Inr False, w1) \<Rightarrow>
                health_loop env agentUrl maxAttempts (attempt + 1)
                  (snd (perform (Sleep 2000) (Inr ()) w1)))
      else (Inr False, w))"
  by pat_completeness auto
termination
  by (relation "measure (\<lambda>(env, agentUrl, maxAttempts, attempt, w). nat (maxAttempts + 1 - attempt))")
    auto

text \<open>
  \<^verbatim>\<open>waitForHealth(url, timeoutSeconds)\<close> for a whole number of seconds:
  \<^verbatim>\<open>maxAttempts = Math.floor(timeoutSeconds * 1000 / 2000)\<close>.
\<close>

definition maxAttempts_of :: "int \<Rightarrow> int" where
  "maxAttempts_of timeoutSeconds = (timeoutSeconds * 1000) div 2000"

definition waitForHealth :: "env \<Rightarrow> string \<Rightarrow> int \<Rightarrow> bool io" where
  "waitForHealth env agentUrl timeoutSeconds =
     health_loop env agentUrl (maxAttempts_of timeoutSeconds) 1"

section \<open>Tear-down and deployment\<close>

text \<open>
  The objects the manager returns: \<^verbatim>\<open>{success, agentId, url, status, error}\<close>, a key that
  the code leaves out being \<open>None\<close>.
\<close>

record result =
  success :: bool
  result_agentId :: "string option"
  result_url :: "string option"
  result_status :: "string option"
  error :: "string option"

definition stopAgent :: "env \<Rightarrow> string \<Rightarrow> result io" where
  "stopAgent env agentId =
     io_catch
       (\<lambda>w. case runningAgents w agentId of
               None \<Rightarrow>
                 io_return \<lparr>success = False, result_agentId = None, result_url = None,
                            result_status = None, error = Some ''Agent not found''\<rparr> w
             | Some agent \<Rightarrow>
                 io_bind
                   (if composePath agent \<noteq> []
                    then io_bind
                           (io_catch
                              (io_bind (perform (Access (composePath agent)) (compose_access env))
                                 (\<lambda>_. io_return True))
                              (\<lambda>_. io_return False))
                           (\<lambda>accessible.
                              if accessible
                              then io_bind
                                     (perform
                                        (Exec (''docker-compose -f '' @ composePath agent @ '' down'') None)
                                        (compose_down env))
                                     (\<lambda>_. io_return ())
                              else io_return ())
                    else io_return ())
                   (\<lambda>_. io_bind (delete_agent agentId) (\<lambda>_.
                      io_return \<lparr>success = True, result_agentId = Some agentId, result_url = None,
                                 result_status = None, error = None\<rparr>)) w)
       (\<lambda>err. io_return \<lparr>success = False, result_agentId = Some agentId, result_url = None,
                          result_status = None, error = Some (message err)\<rparr>)"

text \<open>
  The body of the \<^verbatim>\<open>try\<close> of \<^verbatim>\<open>deployAgent\<close>, lines 141 to 195. The bring-up runs in
  \<^verbatim>\<open>path.dirname(composePath)\<close>.
\<close>

definition deploy_steps :: "env \<Rightarrow> dirs \<Rightarrow> string \<Rightarrow> agent_config \<Rightarrow> result io" where
  "deploy_steps env d agentId agentConfig =
     io_bind (saveAgentConfig env d agentId agentConfig) (\<lambda>_.
     io_bind (saveDockerCompose env d agentId (generateDockerCompose d agentId agentConfig))
       (\<lambda>path.
     io_bind (perform (Exec ''docker build -t superior-agent-runtime .'' (Some (deploymentDir d)))
                (docker_build env)) (\<lambda>buildResult.
     io_bind (perform (Exec (''docker-compose -f '' @ path @ '' up -d'') (Some (path_dirname d path)))
                (compose_up env)) (\<lambda>deployResult.
     let agentUrl = ''http://localhost:'' @ string_of_number (deploy_port agentId) in
     io_bind (waitForHealth env agentUrl 60) (\<lambda>isHealthy.
     if isHealthy
     then io_bind
            (set_agent agentId
               \<lparr>url = agentUrl, composePath = path, status = ''running'',
                deployedAt = deployed_now env\<rparr>)
            (\<lambda>_. io_return \<lparr>success = True, result_agentId = Some agentId,
                             result_url = Some agentUrl, result_status = Some ''running'',
                             error = None\<rparr>)
     else io_throw (JsError ''Agent failed health check''))))))"

text \<open>
  \<^verbatim>\<open>deployAgent\<close>: the \<^verbatim>\<open>catch\<close> awaits \<^verbatim>\<open>stopAgent\<close>, drops what it returns and reports
  the message of the error it caught.
\<close>

definition deployAgent :: "env \<Rightarrow> dirs \<Rightarrow> string \<Rightarrow> agent_config \<Rightarrow> result io" where
  "deployAgent env d agentId agentConfig =
     io_catch (deploy_steps env d agentId agentConfig)
       (\<lambda>err. io_bind (stopAgent env agentId) (\<lambda>_.
          io_return \<lparr>success = False, result_agentId = Some agentId, result_url = None,
                     result_status = None, error = Some (message err)\<rparr>))"

section \<open>The stop and pause routes\<close>

text \<open>
  A record of the server's \<^verbatim>\<open>agents\<close> map: the properties that the two routes write,
  and \<open>other_properties\<close> for all those they never touch (\<^verbatim>\<open>id\<close>, \<^verbatim>\<open>name\<close>, \<^verbatim>\<open>prompt\<close>,
  \<^verbatim>\<open>superiorAgentConfig\<close>, \<^verbatim>\<open>deployedAt\<close> and the rest). \<^verbatim>\<open>delete agent.containerUrl\<close>
  leaves \<open>None\<close>.
\<close>

record agent =
  agent_status :: string
  updatedAt :: string
  stoppedAt :: "string option"
  pausedAt :: "string option"
  containerUrl :: "string option"
  other_properties :: "(string \<times> string) list"






section \<open>Following the logs of a container\<close>

text \<open>
  The follow branch of \<^verbatim>\<open>GET /api/agents/:id/logs\<close> (lines 1145 to 1203) as a machine
  driven by the events of the runtime. The handler writes the headers and awaits the first
  \<^verbatim>\<open>docker logs --tail\<close>; only when that settles does it spawn \<^verbatim>\<open>docker logs -f\<close> and
  register its listeners, the one on the request's \<^verbatim>\<open>close\<close> last (line 1201). An event
  emitter calls the listeners registered at the moment it emits, and a request emits
  \<^verbatim>\<open>close\<close> once.
\<close>

datatype proc_status = Running | Killed | Exited

datatype sse_type = LogsEvent | ErrorEvent | StdoutEvent | StderrEvent | InfoEvent

record follow_conn =
  followProcess :: "proc_status option"
  close_listener :: bool
  request_closed :: bool
  written :: "(sse_type \<times> string) list"
  ended :: bool

datatype conn_event =
    InitialLogs "js_error + exec_output"
  | RequestClose
  | StdoutData string
  | StderrData string
  | ProcessClose

definition follow_start :: follow_conn where
  "follow_start =
     \<lparr>followProcess = None, close_listener = False, request_closed = False, written = [],
      ended = False\<rparr>"

definition initial_event :: "js_error + exec_output \<Rightarrow> sse_type \<times> string" where
  "initial_event r =
     (case r of
        Inl e \<Rightarrow> (ErrorEvent, ''Error getting logs: '' @ message e)
      | Inr out \<Rightarrow>
          (LogsEvent,
           if stdout out \<noteq> [] then stdout out
           else if stderr out \<noteq> [] then stderr out
           else ''No logs available''))"

text \<open>\<^verbatim>\<open>followProcess.kill()\<close> signals a process that still runs.\<close>

definition kill :: "proc_status option \<Rightarrow> proc_status option" where
  "kill p = (if p = Some Running then Some Killed else p)"

definition alive :: "follow_conn \<Rightarrow> bool" where
  "alive c = (followProcess c = Some Running \<or> followProcess c = Some Killed)"

fun follow_step :: "follow_conn \<Rightarrow> conn_event \<Rightarrow> follow_conn" where
  "follow_step c (InitialLogs r) =
     (if followProcess c = None
      then c\<lparr>written := written c @ [initial_event r], followProcess := Some Running,
             close_listener := True\<rparr>
      else c)"
| "follow_step c RequestClose =
     (if request_closed c then c
      else c\<lparr>request_closed := True,
             followProcess := (if close_listener c then kill (followProcess c)
                               else followProcess c)\<rparr>)"
| "follow_step c (StdoutData chunk) =
     (if alive c then c\<lparr>written := written c @ [(StdoutEvent, chunk)]\<rparr> else c)"
| "follow_step c (StderrData chunk) =
     (if alive c then c\<lparr>written := written c @ [(StderrEvent, chunk)]\<rparr> else c)"
| "follow_step c ProcessClose =
     (if alive c
      then c\<lparr>followProcess := Some Exited,
             written := written c @ [(InfoEvent, ''Log stream ended'')], ended := True\<rparr>
      else c)"

definition follow_run :: "conn_event list \<Rightarrow> follow_conn" where
  "follow_run events = foldl follow_step follow_start events"

section \<open>Notions the properties are stated with\<close>

text \<open>The world after a run of effects, the registry untouched.\<close>

definition emit :: "effect list \<Rightarrow> world \<Rightarrow> world" where
  "emit t w = w\<lparr>trace := trace w @ t\<rparr>"

text \<open>The effects an operation added to the trace of the world it started in.\<close>

definition issued :: "world \<Rightarrow> world \<Rightarrow> effect list" where
  "issued w w1 = drop (length (trace w)) (trace w1)"

text \<open>
  Attempt \<open>k\<close> gets a success status when the fetch resolves with \<^verbatim>\<open>response.ok\<close>; it
  passes when, in addition, reading the body of that response does not fail.
\<close>

definition success_status :: "env \<Rightarrow> int \<Rightarrow> bool" where
  "success_status env k = (case probe env k of Inl e \<Rightarrow> False | Inr resp \<Rightarrow> ok resp)"

definition probe_succeeds :: "env \<Rightarrow> int \<Rightarrow> bool" where
  "probe_succeeds env k =
     (case probe env k of
        Inl e \<Rightarrow> False
      | Inr resp \<Rightarrow> ok resp \<and> (case probe_text env k of Inl e \<Rightarrow> False | Inr body \<Rightarrow> True))"

definition healthy_within :: "env \<Rightarrow> int \<Rightarrow> bool" where
  "healthy_within env m = list_ex (probe_succeeds env) [1..m]"

fun is_fetch :: "effect \<Rightarrow> bool" where
  "is_fetch (Fetch u) = True"
| "is_fetch e = False"

definition probes_issued :: "effect list \<Rightarrow> nat" where
  "probes_issued t = length (filter is_fetch t)"

fun is_exec :: "effect \<Rightarrow> bool" where
  "is_exec (Exec c cwd) = True"
| "is_exec e = False"

text \<open>What one attempt adds to the trace, and the kinds of effect the monitor has.\<close>

definition attempt_effects :: "env \<Rightarrow> string \<Rightarrow> int \<Rightarrow> effect list" where
  "attempt_effects env agentUrl k =
     Fetch (agentUrl @ ''/health'') #
     (case probe env k of
        Inl e \<Rightarrow> []
      | Inr resp \<Rightarrow> if ok resp then [ReadText (agentUrl @ ''/health'')] else [])"

fun probe_effect :: "effect \<Rightarrow> bool" where
  "probe_effect (Fetch u) = True"
| "probe_effect (ReadText u) = True"
| "probe_effect (Sleep n) = True"
| "probe_effect e = False"

text \<open>The commands and writes of the deploy pipeline, for one agent.\<close>

definition config_path :: "dirs \<Rightarrow> string \<Rightarrow> string" where
  "config_path d agentId = path_join d (configDir d) (agentId @ ''.json'')"

definition compose_path :: "dirs \<Rightarrow> string \<Rightarrow> string" where
  "compose_path d agentId = path_join d (composeDir d) (agentId @ ''-compose.yml'')"

definition write_config :: "dirs \<Rightarrow> string \<Rightarrow> agent_config \<Rightarrow> effect" where
  "write_config d agentId cfg = WriteFile (config_path d agentId) (ConfigJson cfg)"

definition write_descriptor :: "dirs \<Rightarrow> string \<Rightarrow> agent_config \<Rightarrow> effect" where
  "write_descriptor d agentId cfg =
     WriteFile (compose_path d agentId) (ComposeYaml (generateDockerCompose d agentId cfg))"

definition build_image :: "dirs \<Rightarrow> effect" where
  "build_image d = Exec ''docker build -t superior-agent-runtime .'' (Some (deploymentDir d))"

definition bring_up_at :: "string \<Rightarrow> dirs \<Rightarrow> effect" where
  "bring_up_at path d =
     Exec (''docker-compose -f '' @ path @ '' up -d'') (Some (path_dirname d path))"

definition bring_up :: "dirs \<Rightarrow> string \<Rightarrow> effect" where
  "bring_up d agentId = bring_up_at (compose_path d agentId) d"

definition tear_down :: "string \<Rightarrow> effect" where
  "tear_down path = Exec (''docker-compose -f '' @ path @ '' down'') None"

text \<open>The effects of \<^verbatim>\<open>stopAgent\<close>: the access check and the tear-down command.\<close>

fun stop_effect :: "effect \<Rightarrow> bool" where
  "stop_effect (Access p) = True"
| "stop_effect (Exec c None) = True"
| "stop_effect e = False"

text \<open>Two agent records that agree on all but the status label and its two time stamps.\<close>

definition same_but_label :: "agent \<Rightarrow> agent \<Rightarrow> bool" where
  "same_but_label a b =
     (a\<lparr>agent_status := [], stoppedAt := None, pausedAt := None\<rparr>
      = b\<lparr>agent_status := [], stoppedAt := None, pausedAt := None\<rparr>)"

text \<open>\<open>before a b t\<close>: some \<open>b\<close> comes after the first \<open>a\<close> of \<open>t\<close>.\<close>

fun before :: "'a \<Rightarrow> 'a \<Rightarrow> 'a list \<Rightarrow> bool" where
  "before a b [] = False"
| "before a b (x # xs) = (if x = a then b \<in> set xs else before a b xs)"

text \<open>
  What \<^verbatim>\<open>saveAgentConfig\<close> does between its \<^verbatim>\<open>mkdir\<close> and its write: the guarded
  \<^verbatim>\<open>stat\<close> and, for a directory in the way, the \<^verbatim>\<open>rmdir\<close>.
\<close>

definition stale_check :: "env \<Rightarrow> dirs \<Rightarrow> string \<Rightarrow> effect list" where
  "stale_check env d agentId =
     Stat (config_path d agentId) #
     (case config_stat env of
        Inl e \<Rightarrow> []
      | Inr isDirectory \<Rightarrow> if isDirectory then [Rmdir (config_path d agentId)] else [])"

text \<open>
  The first failure of the pipeline in the order the code runs its stages: the
  configuration write, the descriptor write, the image build, the bring-up, and the
  health check with its 30 attempts. \<open>None\<close>: every stage succeeds.
\<close>

definition pipeline_failure :: "env \<Rightarrow> js_error option" where
  "pipeline_failure env =
     (case config_mkdir env of Inl e \<Rightarrow> Some e | Inr _ \<Rightarrow>
      case config_write env of Inl e \<Rightarrow> Some e | Inr _ \<Rightarrow>
      case config_size env of Inl e \<Rightarrow> Some e | Inr _ \<Rightarrow>
      case compose_mkdir env of Inl e \<Rightarrow> Some e | Inr _ \<Rightarrow>
      case compose_write env of Inl e \<Rightarrow> Some e | Inr _ \<Rightarrow>
      case docker_build env of Inl e \<Rightarrow> Some e | Inr _ \<Rightarrow>
      case compose_up env of Inl e \<Rightarrow> Some e | Inr _ \<Rightarrow>
      if healthy_within env 30 then None else Some (JsError ''Agent failed health check''))"

definition failure_result :: "string \<Rightarrow> string \<Rightarrow> result" where
  "failure_result agentId msg =
     \<lparr>success = False, result_agentId = Some agentId, result_url = None,
      result_status = None, error = Some msg\<rparr>"

definition stopped_result :: "string \<Rightarrow> result" where
  "stopped_result agentId =
     \<lparr>success = True, result_agentId = Some agentId, result_url = None,
      result_status = None, error = None\<rparr>"

definition agent_url :: "string \<Rightarrow> string" where
  "agent_url agentId = ''http://localhost:'' @ string_of_number (deploy_port agentId)"

text \<open>The entry and the result of a deployment that passed its health check.\<close>

definition running_entry :: "env \<Rightarrow> dirs \<Rightarrow> string \<Rightarrow> running_agent" where
  "running_entry env d agentId =
     \<lparr>url = agent_url agentId, composePath = compose_path d agentId, status = ''running'',
      deployedAt = deployed_now env\<rparr>"

definition success_result :: "string \<Rightarrow> result" where
  "success_result agentId =
     \<lparr>success = True, result_agentId = Some agentId, result_url = Some (agent_url agentId),
      result_status = Some ''running'', error = None\<rparr>"

text \<open>Everything \<^verbatim>\<open>saveAgentConfig\<close> does when it succeeds.\<close>

definition config_effects :: "env \<Rightarrow> dirs \<Rightarrow> string \<Rightarrow> agent_config \<Rightarrow> effect list" where
  "config_effects env d agentId cfg =
     Mkdir (configDir d) # stale_check env d agentId
       @ [write_config d agentId cfg, Stat (config_path d agentId)]"

text \<open>
  The states of the manager: it starts with an empty registry, and \<^verbatim>\<open>deployAgent\<close> and
  \<^verbatim>\<open>stopAgent\<close> are its only methods that write \<^verbatim>\<open>runningAgents\<close>.
\<close>

inductive reachable :: "dirs \<Rightarrow> world \<Rightarrow> bool" for d :: dirs where
  initial: "reachable d \<lparr>runningAgents = Map.empty, trace = []\<rparr>"
| deploy: "reachable d w \<Longrightarrow> reachable d (snd (deployAgent env d agentId cfg w))"
| stop: "reachable d w \<Longrightarrow> reachable d (snd (stopAgent env agentId w))"

text \<open>What the registry invariant says of a state.\<close>

definition well_formed :: "dirs \<Rightarrow> world \<Rightarrow> bool" where
  "well_formed d w =
     (\<forall>agentId a. runningAgents w agentId = Some a \<longrightarrow>
        status a = ''running'' \<and> url a = agent_url agentId
        \<and> composePath a = compose_path d agentId)"

text \<open>
  What the pipeline issues before the health check, read off the outcomes of its
  calls: each stage runs only when the one before it succeeded.
\<close>

definition deploy_prefix :: "env \<Rightarrow> dirs \<Rightarrow> string \<Rightarrow> agent_config \<Rightarrow> effect list" where
  "deploy_prefix env d agentId cfg =
     (case config_mkdir env of Inl e \<Rightarrow> [Mkdir (configDir d)] | Inr _ \<Rightarrow>
      case config_write env of
        Inl e \<Rightarrow> Mkdir (configDir d) # stale_check env d agentId @ [write_config d agentId cfg]
      | Inr _ \<Rightarrow>
      case config_size env of Inl e \<Rightarrow> config_effects env d agentId cfg | Inr _ \<Rightarrow>
      case compose_mkdir env of
        Inl e \<Rightarrow> config_effects env d agentId cfg @ [Mkdir (composeDir d)]
      | Inr _ \<Rightarrow>
      case compose_write env of
        Inl e \<Rightarrow> config_effects env d agentId cfg
                 @ [Mkdir (composeDir d), write_descriptor d agentId cfg]
      | Inr _ \<Rightarrow>
      case docker_build env of
        Inl e \<Rightarrow> config_effects env d agentId cfg
                 @ [Mkdir (composeDir d), write_descriptor d agentId cfg, build_image d]
      | Inr _ \<Rightarrow>
        config_effects env d agentId cfg
          @ [Mkdir (composeDir d), write_descriptor d agentId cfg, build_image d,
             bring_up d agentId])"

section \<open>Concrete inputs\<close>

definition quiet :: exec_output where
  "quiet = \<lparr>stdout = [], stderr = []\<rparr>"

text \<open>Every call succeeds, no directory is in the way, the first probe passes.\<close>

definition env_ok :: env where
  "env_ok =
     \<lparr>config_mkdir = Inr (), config_stat = Inl (JsError ''ENOENT''), config_rmdir = Inr (),
      config_write = Inr (), config_size = Inr 64, compose_mkdir = Inr (),
      compose_write = Inr (), docker_build = Inr quiet, compose_up = Inr quiet,
      probe = (\<lambda>k. Inr \<lparr>ok = True, response_status = 200\<rparr>),
      probe_text = (\<lambda>k. Inr ''{\"status\":\"healthy\"}''),
      deployed_now = ''2024-01-01T00:00:00.000Z'', compose_access = Inr (),
      compose_down = Inr quiet, agents_db_write = Inr ()\<rparr>"

text \<open>The image build fails and so does the tear-down command.\<close>

definition env_docker_down :: env where
  "env_docker_down =
     env_ok\<lparr>docker_build := Inl (JsError ''Cannot connect to the Docker daemon''),
            compose_down := Inl (JsError ''Command failed: docker-compose down'')\<rparr>"

text \<open>Nothing listens on the port: every probe is refused.\<close>

definition env_refused :: env where
  "env_refused = env_ok\<lparr>probe := (\<lambda>k. Inl (JsError ''connect ECONNREFUSED''))\<rparr>"

text \<open>The agent answers 200 but the connection drops while the body is read.\<close>

definition env_body_lost :: env where
  "env_body_lost = env_ok\<lparr>probe_text := (\<lambda>k. Inl (JsError ''Premature close''))\<rparr>"

text \<open>
  A platform whose paths have no dot segments: joining puts a separator between its
  arguments, and the directory of a path is what precedes its last separator.
\<close>

definition example_dirs :: dirs where
  "example_dirs =
     \<lparr>configDir = ''/srv/agent-configs'', composeDir = ''/srv/deployments'',
      deploymentDir = ''/srv/runtime-agent'',
      path_join = (\<lambda>dir name. dir @ ''/'' @ name),
      path_dirname = (\<lambda>p. rev (tl (dropWhile (\<lambda>c. c \<noteq> CHR ''/'') (rev p))))\<rparr>"

definition example_config :: agent_config where
  "example_config = \<lparr>agent_name = ''trader'', mcp_clients = []\<rparr>"

definition fresh :: world where
  "fresh = \<lparr>runningAgents = Map.empty, trace = []\<rparr>"

text \<open>The manager with one agent, \<^verbatim>\<open>a1\<close>, deployed.\<close>

definition one_running :: world where
  "one_running =
     \<lparr>runningAgents = [''a1'' \<mapsto> running_entry env_ok example_dirs ''a1''], trace = []\<rparr>"



section \<open>What each operation does to the world\<close>

lemmas io_defs = io_return_def io_throw_def io_bind_def io_catch_def perform_def
  set_agent_def delete_agent_def

declare health_loop.simps [simp del]

lemma emit_simps [simp]:
  "emit [] w = w"
  "emit t (emit s w) = emit (s @ t) w"
  "runningAgents (emit t w) = runningAgents w"
  "trace (emit t w) = trace w @ t"
  by (simp_all add: emit_def)

lemma issued_emit [simp]: "issued w (emit t w) = t"
  by (simp add: issued_def)

lemma issued_emit_registry [simp]: "issued w (emit t w\<lparr>runningAgents := r\<rparr>) = t"
  by (simp add: issued_def)

lemma issued_registry [simp]: "issued w (w\<lparr>runningAgents := r\<rparr>) = []"
  by (simp add: issued_def)

lemma perform_emit: "perform e outcome w = (outcome, emit [e] w)"
  by (simp add: perform_def emit_def)

lemma fetch_container_logs_throws:
  "fetch_container_logs agentUrl w = (Inl (JsError ''execAsync is not a function''), w)"
  by (simp add: fetch_container_logs_def promisified_exec_property_def io_defs Let_def)

lemma health_attempt_eq:
  "health_attempt env agentUrl k w =
     (Inr (probe_succeeds env k), emit (attempt_effects env agentUrl k) w)"
  by (simp add: health_attempt_def io_defs probe_succeeds_def attempt_effects_def emit_def
      fetch_container_logs_throws split: sum.splits)

lemma health_loop_step:
  "health_loop env agentUrl m a w =
     (if a \<le> m then
        (if probe_succeeds env a
         then (Inr True, emit (attempt_effects env agentUrl a) w)
         else health_loop env agentUrl m (a + 1)
                (emit (attempt_effects env agentUrl a @ [Sleep 2000]) w))
      else (Inr False, w))"
  by (subst health_loop.simps) (simp add: health_attempt_eq perform_emit)

lemma probe_effect_attempt: "\<forall>e\<in>set (attempt_effects env agentUrl k). probe_effect e"
  by (auto simp: attempt_effects_def split: sum.splits)

lemma probes_issued_attempt [simp]: "probes_issued (attempt_effects env agentUrl k) = 1"
  by (simp add: probes_issued_def attempt_effects_def split: sum.splits)

lemma probes_issued_append [simp]: "probes_issued (s @ t) = probes_issued s + probes_issued t"
  by (simp add: probes_issued_def)

lemma probes_issued_simps [simp]:
  "probes_issued [] = 0" "probes_issued (Sleep n # t) = probes_issued t"
  by (simp_all add: probes_issued_def)

lemma health_loop_spec:
  "\<exists>b t. health_loop env agentUrl m a w = (Inr b, emit t w)
     \<and> (\<forall>e\<in>set t. probe_effect e)
     \<and> (b \<longleftrightarrow> (\<exists>k. a \<le> k \<and> k \<le> m \<and> probe_succeeds env k))
     \<and> (b \<longrightarrow> probe_succeeds env (a + int (probes_issued t) - 1)
              \<and> (\<forall>j. a \<le> j \<and> j < a + int (probes_issued t) - 1 \<longrightarrow> \<not> probe_succeeds env j))
     \<and> (\<not> b \<longrightarrow> int (probes_issued t) = max 0 (m + 1 - a))
     \<and> int (probes_issued t) \<le> max 0 (m + 1 - a)
     \<and> (b \<longrightarrow> 1 \<le> probes_issued t)"
proof (induction "nat (m + 1 - a)" arbitrary: a w)
  case 0
  then have "\<not> a \<le> m" by simp
  then have "health_loop env agentUrl m a w = (Inr False, emit [] w)"
    by (subst health_loop_step) simp
  with \<open>\<not> a \<le> m\<close> show ?case
    by (intro exI[of _ False] exI[of _ "[]"]) auto
next
  case (Suc n)
  then have le: "a \<le> m" by simp
  show ?case
  proof (cases "probe_succeeds env a")
    case True
    then have "health_loop env agentUrl m a w
        = (Inr True, emit (attempt_effects env agentUrl a) w)"
      using le by (subst health_loop_step) simp
    with True le probe_effect_attempt[of env agentUrl a] show ?thesis
      by (intro exI[of _ True] exI[of _ "attempt_effects env agentUrl a"]) auto
  next
    case False
    let ?s = "attempt_effects env agentUrl a @ [Sleep 2000]"
    have n: "n = nat (m + 1 - (a + 1))" using Suc.hyps(2) by simp
    from Suc.hyps(1)[OF n, of "emit ?s w"] obtain b t where
      run: "health_loop env agentUrl m (a + 1) (emit ?s w) = (Inr b, emit t (emit ?s w))"
      and eff: "\<forall>e\<in>set t. probe_effect e"
      and iff: "b \<longleftrightarrow> (\<exists>k. a + 1 \<le> k \<and> k \<le> m \<and> probe_succeeds env k)"
      and first: "b \<longrightarrow> probe_succeeds env (a + 1 + int (probes_issued t) - 1)
              \<and> (\<forall>j. a + 1 \<le> j \<and> j < a + 1 + int (probes_issued t) - 1 \<longrightarrow> \<not> probe_succeeds env j)"
      and none: "\<not> b \<longrightarrow> int (probes_issued t) = max 0 (m + 1 - (a + 1))"
      and bound: "int (probes_issued t) \<le> max 0 (m + 1 - (a + 1))"
      by blast
    let ?t = "?s @ t"
    have eq: "health_loop env agentUrl m a w = (Inr b, emit ?t w)"
      using le False run by (subst health_loop_step) simp
    have eff': "\<forall>e\<in>set ?t. probe_effect e"
      using eff probe_effect_attempt[of env agentUrl a] by auto
    have cnt: "int (probes_issued ?t) = 1 + int (probes_issued t)" by simp
    have iff': "b \<longleftrightarrow> (\<exists>k. a \<le> k \<and> k \<le> m \<and> probe_succeeds env k)"
    proof
      assume b
      with iff obtain k where "a + 1 \<le> k" "k \<le> m" "probe_succeeds env k" by blast
      then show "\<exists>k. a \<le> k \<and> k \<le> m \<and> probe_succeeds env k"
        by (intro exI[of _ k]) simp
    next
      assume "\<exists>k. a \<le> k \<and> k \<le> m \<and> probe_succeeds env k"
      then obtain k where k: "a \<le> k" "k \<le> m" "probe_succeeds env k" by blast
      with False have "k \<noteq> a" by auto
      with k have "a + 1 \<le> k" by simp
      with k iff show b by blast
    qed
    have first': "b \<longrightarrow> probe_succeeds env (a + int (probes_issued ?t) - 1)
              \<and> (\<forall>j. a \<le> j \<and> j < a + int (probes_issued ?t) - 1 \<longrightarrow> \<not> probe_succeeds env j)"
    proof
      assume b
      with first have s: "probe_succeeds env (a + 1 + int (probes_issued t) - 1)"
        and f: "\<forall>j. a + 1 \<le> j \<and> j < a + 1 + int (probes_issued t) - 1 \<longrightarrow> \<not> probe_succeeds env j"
        by blast+
      have "\<forall>j. a \<le> j \<and> j < a + int (probes_issued ?t) - 1 \<longrightarrow> \<not> probe_succeeds env j"
      proof (intro allI impI)
        fix j assume j: "a \<le> j \<and> j < a + int (probes_issued ?t) - 1"
        show "\<not> probe_succeeds env j"
        proof (cases "j = a")
          case True with False show ?thesis by simp
        next
          case False
          with j have "a + 1 \<le> j \<and> j < a + 1 + int (probes_issued t) - 1" using cnt by simp
          with f show ?thesis by blast
        qed
      qed
      moreover have "a + int (probes_issued ?t) - 1 = a + 1 + int (probes_issued t) - 1"
        using cnt by simp
      ultimately show "probe_succeeds env (a + int (probes_issued ?t) - 1)
              \<and> (\<forall>j. a \<le> j \<and> j < a + int (probes_issued ?t) - 1 \<longrightarrow> \<not> probe_succeeds env j)"
        using s by simp
    qed
    have none': "\<not> b \<longrightarrow> int (probes_issued ?t) = max 0 (m + 1 - a)"
      using none cnt le by auto
    have bound': "int (probes_issued ?t) \<le> max 0 (m + 1 - a)"
      using bound cnt le by auto
    have pos: "b \<longrightarrow> 1 \<le> probes_issued ?t" by simp
    show ?thesis
      using eq eff' iff' first' none' bound' pos by blast
  qed
qed

lemma healthy_within_iff: "healthy_within env m \<longleftrightarrow> (\<exists>k. 1 \<le> k \<and> k \<le> m \<and> probe_succeeds env k)"
  by (auto simp: healthy_within_def list_ex_iff)


lemma waitForHealth_run:
  "\<exists>t. waitForHealth env agentUrl T w = (Inr (healthy_within env (maxAttempts_of T)), emit t w)
     \<and> (\<forall>e\<in>set t. probe_effect e)"
proof -
  from health_loop_spec[of env agentUrl "maxAttempts_of T" 1 w] obtain b t where
    "health_loop env agentUrl (maxAttempts_of T) 1 w = (Inr b, emit t w)"
    "\<forall>e\<in>set t. probe_effect e"
    "b \<longleftrightarrow> (\<exists>k. 1 \<le> k \<and> k \<le> maxAttempts_of T \<and> probe_succeeds env k)"
    by blast
  then show ?thesis
    by (auto simp: waitForHealth_def healthy_within_iff)
qed

lemma saveAgentConfig_eq:
  "saveAgentConfig env d agentId cfg w =
     (case config_mkdir env of
        Inl e \<Rightarrow> (Inl e, emit [Mkdir (configDir d)] w)
      | Inr _ \<Rightarrow>
     (case config_write env of
        Inl e \<Rightarrow> (Inl e, emit (Mkdir (configDir d) # stale_check env d agentId
                              @ [write_config d agentId cfg]) w)
      | Inr _ \<Rightarrow>
     (case config_size env of
        Inl e \<Rightarrow> (Inl e, emit (Mkdir (configDir d) # stale_check env d agentId
                              @ [write_config d agentId cfg, Stat (config_path d agentId)]) w)
      | Inr _ \<Rightarrow> (Inr (config_path d agentId),
                  emit (Mkdir (configDir d) # stale_check env d agentId
                        @ [write_config d agentId cfg, Stat (config_path d agentId)]) w))))"
  by (simp add: saveAgentConfig_def io_defs emit_def stale_check_def write_config_def
      config_path_def Let_def split: sum.splits)

lemma saveDockerCompose_eq:
  "saveDockerCompose env d agentId (generateDockerCompose d agentId cfg) w =
     (case compose_mkdir env of
        Inl e \<Rightarrow> (Inl e, emit [Mkdir (composeDir d)] w)
      | Inr _ \<Rightarrow>
     (case compose_write env of
        Inl e \<Rightarrow> (Inl e, emit [Mkdir (composeDir d), write_descriptor d agentId cfg] w)
      | Inr _ \<Rightarrow> (Inr (compose_path d agentId),
                  emit [Mkdir (composeDir d), write_descriptor d agentId cfg] w)))"
  by (simp add: saveDockerCompose_def io_defs emit_def write_descriptor_def
      compose_path_def Let_def split: sum.splits)

lemma deploy_steps_unfold:
  "deploy_steps env d agentId cfg =
     io_bind (saveAgentConfig env d agentId cfg) (\<lambda>_.
     io_bind (saveDockerCompose env d agentId (generateDockerCompose d agentId cfg)) (\<lambda>path.
     io_bind (perform (build_image d) (docker_build env)) (\<lambda>buildResult.
     io_bind (perform (bring_up_at path d) (compose_up env)) (\<lambda>deployResult.
     io_bind (waitForHealth env (agent_url agentId) 60) (\<lambda>isHealthy.
     if isHealthy
     then io_bind
            (set_agent agentId
               \<lparr>url = agent_url agentId, composePath = path, status = ''running'',
                deployedAt = deployed_now env\<rparr>)
            (\<lambda>_. io_return \<lparr>success = True, result_agentId = Some agentId,
                             result_url = Some (agent_url agentId),
                             result_status = Some ''running'', error = None\<rparr>)
     else io_throw (JsError ''Agent failed health check''))))))"
  by (simp only: deploy_steps_def build_image_def bring_up_at_def agent_url_def Let_def)

lemma io_bind_apply:
  "io_bind m f w = (case m w of (Inl e, w1) \<Rightarrow> (Inl e, w1) | (Inr x, w1) \<Rightarrow> f x w1)"
  by (simp add: io_bind_def)

lemma deploy_steps_eq:
  "\<exists>t. (\<forall>e\<in>set t. probe_effect e) \<and>
     deploy_steps env d agentId cfg w =
     (case config_mkdir env of
        Inl e \<Rightarrow> (Inl e, emit [Mkdir (configDir d)] w)
      | Inr _ \<Rightarrow>
     (case config_write env of
        Inl e \<Rightarrow> (Inl e, emit (Mkdir (configDir d) # stale_check env d agentId
                              @ [write_config d agentId cfg]) w)
      | Inr _ \<Rightarrow>
     (case config_size env of
        Inl e \<Rightarrow> (Inl e, emit (config_effects env d agentId cfg) w)
      | Inr _ \<Rightarrow>
     (case compose_mkdir env of
        Inl e \<Rightarrow> (Inl e, emit (config_effects env d agentId cfg @ [Mkdir (composeDir d)]) w)
      | Inr _ \<Rightarrow>
     (case compose_write env of
        Inl e \<Rightarrow> (Inl e, emit (config_effects env d agentId cfg
                       @ [Mkdir (composeDir d), write_descriptor d agentId cfg]) w)
      | Inr _ \<Rightarrow>
     (case docker_build env of
        Inl e \<Rightarrow> (Inl e, emit (config_effects env d agentId cfg
                       @ [Mkdir (composeDir d), write_descriptor d agentId cfg, build_image d]) w)
      | Inr _ \<Rightarrow>
     (case compose_up env of
        Inl e \<Rightarrow> (Inl e, emit (config_effects env d agentId cfg
                       @ [Mkdir (composeDir d), write_descriptor d agentId cfg, build_image d,
                          bring_up d agentId]) w)
      | Inr _ \<Rightarrow>
        if healthy_within env 30
        then (Inr (success_result agentId),
              emit (config_effects env d agentId cfg
                       @ [Mkdir (composeDir d), write_descriptor d agentId cfg, build_image d,
                          bring_up d agentId] @ t) w
                \<lparr>runningAgents := (runningAgents w)(agentId \<mapsto> running_entry env d agentId)\<rparr>)
        else (Inl (JsError ''Agent failed health check''),
              emit (config_effects env d agentId cfg
                       @ [Mkdir (composeDir d), write_descriptor d agentId cfg, build_image d,
                          bring_up d agentId] @ t) w))))))))"
proof -
  let ?pre = "config_effects env d agentId cfg
                       @ [Mkdir (composeDir d), write_descriptor d agentId cfg, build_image d,
                          bring_up d agentId]"
  from waitForHealth_run[of env "agent_url agentId" 60 "emit ?pre w"] obtain t where
    run: "waitForHealth env (agent_url agentId) 60 (emit ?pre w)
            = (Inr (healthy_within env (maxAttempts_of 60)), emit t (emit ?pre w))"
    and eff: "\<forall>e\<in>set t. probe_effect e" by blast
  have m: "maxAttempts_of 60 = 30" by (simp add: maxAttempts_of_def)
  have run': "waitForHealth env (agent_url agentId) 60
       (emit (config_effects env d agentId cfg
                       @ [Mkdir (composeDir d), write_descriptor d agentId cfg, build_image d,
                          bring_up_at (compose_path d agentId) d]) w)
     = (Inr (healthy_within env 30), emit (config_effects env d agentId cfg
                       @ [Mkdir (composeDir d), write_descriptor d agentId cfg, build_image d,
                          bring_up d agentId] @ t) w)"
    using run by (simp add: m bring_up_def)
  show ?thesis
    apply (rule exI[of _ t], rule conjI[OF eff])
    apply (simp only: deploy_steps_unfold)
    apply (simp add: io_bind_apply saveAgentConfig_eq saveDockerCompose_eq perform_emit
        config_effects_def[symmetric] split: sum.splits)
    apply (simp add: run' bring_up_def io_bind_apply io_return_def io_throw_def set_agent_def success_result_def
        running_entry_def)
    done
qed

section \<open>Tear-down\<close>

lemma stopAgent_absent:
  "runningAgents w agentId = None \<Longrightarrow>
   stopAgent env agentId w =
     (Inr \<lparr>success = False, result_agentId = None, result_url = None,
           result_status = None, error = Some ''Agent not found''\<rparr>, w)"
  by (simp add: stopAgent_def io_defs)

lemma stopAgent_present:
  assumes "runningAgents w agentId = Some a"
  shows "stopAgent env agentId w =
     (if composePath a = [] then
        (Inr (stopped_result agentId), w\<lparr>runningAgents := (runningAgents w)(agentId := None)\<rparr>)
      else (case compose_access env of
          Inl e \<Rightarrow> (Inr (stopped_result agentId),
              emit [Access (composePath a)] w
                \<lparr>runningAgents := (runningAgents w)(agentId := None)\<rparr>)
        | Inr u \<Rightarrow> (case compose_down env of
             Inl e \<Rightarrow> (Inr (failure_result agentId (message e)),
                      emit [Access (composePath a), tear_down (composePath a)] w)
           | Inr out \<Rightarrow> (Inr (stopped_result agentId),
              emit [Access (composePath a), tear_down (composePath a)] w
                \<lparr>runningAgents := (runningAgents w)(agentId := None)\<rparr>))))"
  using assms
  by (simp add: stopAgent_def io_defs tear_down_def emit_def stopped_result_def
      failure_result_def split: sum.splits)

text \<open>
  C8. For an agent id with no entry in the registry, \<^verbatim>\<open>stopAgent\<close> returns exactly
  \<^verbatim>\<open>{success: false, error: 'Agent not found'}\<close>, with no \<^verbatim>\<open>agentId\<close> key, and the world it
  leaves is the one it found: no effect is issued, so no tear-down command, and the
  registry is unchanged.
\<close>

theorem stopAgent_not_found:
  assumes "runningAgents w agentId = None"
  shows "stopAgent env agentId w =
     (Inr \<lparr>success = False, result_agentId = None, result_url = None,
           result_status = None, error = Some ''Agent not found''\<rparr>, w)"
  using assms by (rule stopAgent_absent)

theorem stopAgent_not_found_witness:
  "runningAgents one_running ''b2'' = None \<and>
   stopAgent env_ok ''b2'' one_running =
     (Inr \<lparr>success = False, result_agentId = None, result_url = None,
           result_status = None, error = Some ''Agent not found''\<rparr>, one_running)"
proof -
  have h: "runningAgents one_running ''b2'' = None"
    by (simp add: one_running_def)
  show ?thesis
    using h stopAgent_not_found [OF h, of env_ok] by simp
qed

text \<open>
  C10. For an agent with a registry entry: when the tear-down command is issued and
  throws, \<^verbatim>\<open>stopAgent\<close> returns \<^verbatim>\<open>{success: false, agentId, error}\<close> with the message of
  that error and the registry is unchanged; and whenever the entry is gone afterwards,
  \<^verbatim>\<open>stopAgent\<close> returned success and a tear-down command, if one was issued, did not
  throw.
\<close>

theorem stopAgent_atomic_on_failure:
  assumes "runningAgents w agentId = Some a"
  shows "(composePath a \<noteq> [] \<and> compose_access env = Inr () \<and> compose_down env = Inl e \<longrightarrow>
            fst (stopAgent env agentId w) = Inr (failure_result agentId (message e))
            \<and> runningAgents (snd (stopAgent env agentId w)) = runningAgents w
            \<and> issued w (snd (stopAgent env agentId w))
                = [Access (composePath a), tear_down (composePath a)])
       \<and> (runningAgents (snd (stopAgent env agentId w)) agentId = None \<longrightarrow>
            fst (stopAgent env agentId w) = Inr (stopped_result agentId)
            \<and> (tear_down (composePath a) \<in> set (issued w (snd (stopAgent env agentId w)))
                 \<longrightarrow> (\<exists>out. compose_down env = Inr out)))"
  using assms
  by (auto simp: stopAgent_present tear_down_def split: sum.splits)

theorem stopAgent_atomic_on_failure_witness:
  "runningAgents one_running ''a1'' = Some (running_entry env_ok example_dirs ''a1'') \<and>
   fst (stopAgent env_docker_down ''a1'' one_running)
     = Inr (failure_result ''a1'' ''Command failed: docker-compose down'') \<and>
   runningAgents (snd (stopAgent env_docker_down ''a1'' one_running)) = runningAgents one_running"
proof -
  have h: "runningAgents one_running ''a1'' = Some (running_entry env_ok example_dirs ''a1'')"
    by (simp add: one_running_def)
  have p: "composePath (running_entry env_ok example_dirs ''a1'') \<noteq> []"
    by (simp add: running_entry_def compose_path_def example_dirs_def)
  have a: "compose_access env_docker_down = Inr ()"
    by (simp add: env_docker_down_def env_ok_def)
  have f: "compose_down env_docker_down = Inl (JsError ''Command failed: docker-compose down'')"
    by (simp add: env_docker_down_def env_ok_def)
  show ?thesis
    using h p a f
      stopAgent_atomic_on_failure [OF h, of env_docker_down
        "JsError ''Command failed: docker-compose down''"]
    by simp
qed

section \<open>The health monitor's attempts\<close>

text \<open>
  C2, as the code has it. \<^verbatim>\<open>waitForHealth\<close> always returns, having issued at most
  \<open>maxAttempts\<close> probes, one after the other. It returns \<^verbatim>\<open>true\<close> exactly when some
  attempt among the first \<open>maxAttempts\<close> passes, that is, gets a success status and has
  the body of that response read without error; the probes it issued are then those
  up to the first attempt that passes, and no more. Otherwise it returns \<^verbatim>\<open>false\<close>
  after exactly \<open>maxAttempts\<close> probes. An attempt fails on a non-success status, on a
  rejected fetch, and on a success status whose body cannot be read.
\<close>

theorem waitForHealth_attempts:
  "\<exists>b w1. waitForHealth env agentUrl timeoutSeconds w = (Inr b, w1)
     \<and> int (probes_issued (issued w w1)) \<le> max 0 (maxAttempts_of timeoutSeconds)
     \<and> (b \<longleftrightarrow> (\<exists>k. 1 \<le> k \<and> k \<le> maxAttempts_of timeoutSeconds \<and> probe_succeeds env k))
     \<and> (b \<longrightarrow> probe_succeeds env (int (probes_issued (issued w w1)))
              \<and> (\<forall>j. 1 \<le> j \<and> j < int (probes_issued (issued w w1)) \<longrightarrow> \<not> probe_succeeds env j))
     \<and> (\<not> b \<longrightarrow> int (probes_issued (issued w w1)) = max 0 (maxAttempts_of timeoutSeconds))
     \<and> (b \<longrightarrow> 1 \<le> probes_issued (issued w w1))"
proof -
  let ?m = "maxAttempts_of timeoutSeconds"
  from health_loop_spec[of env agentUrl ?m 1 w] obtain b t where
    run: "health_loop env agentUrl ?m 1 w = (Inr b, emit t w)"
    and iff: "b \<longleftrightarrow> (\<exists>k. 1 \<le> k \<and> k \<le> ?m \<and> probe_succeeds env k)"
    and first: "b \<longrightarrow> probe_succeeds env (1 + int (probes_issued t) - 1)
              \<and> (\<forall>j. 1 \<le> j \<and> j < 1 + int (probes_issued t) - 1 \<longrightarrow> \<not> probe_succeeds env j)"
    and none: "\<not> b \<longrightarrow> int (probes_issued t) = max 0 (?m + 1 - 1)"
    and bound: "int (probes_issued t) \<le> max 0 (?m + 1 - 1)"
    and pos: "b \<longrightarrow> 1 \<le> probes_issued t"
    by blast
  have eq: "waitForHealth env agentUrl timeoutSeconds w = (Inr b, emit t w)"
    using run by (simp only: waitForHealth_def)
  have t: "issued w (emit t w) = t" by (rule issued_emit)
  have a: "1 + int (probes_issued t) - 1 = int (probes_issued t)" by simp
  have c: "?m + 1 - 1 = ?m" by simp
  show ?thesis
  proof (intro exI[of _ b] exI[of _ "emit t w"] conjI)
    show "waitForHealth env agentUrl timeoutSeconds w = (Inr b, emit t w)" by (rule eq)
    show "int (probes_issued (issued w (emit t w))) \<le> max 0 ?m"
      using bound unfolding t c .
    show "b \<longleftrightarrow> (\<exists>k. 1 \<le> k \<and> k \<le> ?m \<and> probe_succeeds env k)" by (rule iff)
    show "b \<longrightarrow> probe_succeeds env (int (probes_issued (issued w (emit t w))))
              \<and> (\<forall>j. 1 \<le> j \<and> j < int (probes_issued (issued w (emit t w)))
                     \<longrightarrow> \<not> probe_succeeds env j)"
      using first unfolding t a .
    show "\<not> b \<longrightarrow> int (probes_issued (issued w (emit t w))) = max 0 ?m"
      using none unfolding t c .
    show "b \<longrightarrow> 1 \<le> probes_issued (issued w (emit t w))"
      using pos unfolding t .
  qed
qed

lemma probe_succeeds_ok [simp]: "probe_succeeds env_ok k"
  by (simp add: probe_succeeds_def env_ok_def)

lemma probe_succeeds_refused [simp]: "\<not> probe_succeeds env_refused k"
  by (simp add: probe_succeeds_def env_refused_def env_ok_def)

lemma probe_succeeds_body_lost [simp]: "\<not> probe_succeeds env_body_lost k"
  by (simp add: probe_succeeds_def env_body_lost_def env_ok_def)

theorem waitForHealth_attempts_witness:
  "fst (waitForHealth env_ok (agent_url ''a1'') 60 fresh) = Inr True \<and>
   probes_issued (issued fresh (snd (waitForHealth env_ok (agent_url ''a1'') 60 fresh))) = 1 \<and>
   fst (waitForHealth env_refused (agent_url ''a1'') 60 fresh) = Inr False \<and>
   probes_issued (issued fresh (snd (waitForHealth env_refused (agent_url ''a1'') 60 fresh))) = 30"
proof -
  have m: "maxAttempts_of 60 = 30" by (simp add: maxAttempts_of_def)
  from waitForHealth_attempts [of env_ok "agent_url ''a1''" 60 fresh] obtain b w1 where
    ok: "waitForHealth env_ok (agent_url ''a1'') 60 fresh = (Inr b, w1)"
    and ok_iff: "b \<longleftrightarrow> (\<exists>k. 1 \<le> k \<and> k \<le> maxAttempts_of 60 \<and> probe_succeeds env_ok k)"
    and ok_first: "b \<longrightarrow> (\<forall>j. 1 \<le> j \<and> j < int (probes_issued (issued fresh w1))
                          \<longrightarrow> \<not> probe_succeeds env_ok j)"
    and ok_pos: "b \<longrightarrow> 1 \<le> probes_issued (issued fresh w1)"
    by blast
  have "\<exists>k. 1 \<le> k \<and> k \<le> maxAttempts_of 60 \<and> probe_succeeds env_ok k"
    unfolding m by (rule exI[of _ 1]) simp
  with ok_iff have b: b by simp
  have "\<not> 1 < int (probes_issued (issued fresh w1))"
  proof
    assume "1 < int (probes_issued (issued fresh w1))"
    moreover from ok_first b
    have "(1::int) \<le> 1 \<and> 1 < int (probes_issued (issued fresh w1))
            \<longrightarrow> \<not> probe_succeeds env_ok 1"
      by blast
    ultimately show False by simp
  qed
  with ok_pos b have one: "probes_issued (issued fresh w1) = 1" by simp
  from waitForHealth_attempts [of env_refused "agent_url ''a1''" 60 fresh] obtain c w2 where
    no: "waitForHealth env_refused (agent_url ''a1'') 60 fresh = (Inr c, w2)"
    and no_iff: "c \<longleftrightarrow> (\<exists>k. 1 \<le> k \<and> k \<le> maxAttempts_of 60 \<and> probe_succeeds env_refused k)"
    and no_none: "\<not> c \<longrightarrow> int (probes_issued (issued fresh w2)) = max 0 (maxAttempts_of 60)"
    by blast
  have c: "\<not> c" using no_iff by simp
  with no_none m have "probes_issued (issued fresh w2) = 30" by simp
  with ok b one no c show ?thesis by simp
qed

text \<open>
  The claim as the specification states it fails: with one attempt allowed, the probe
  returns a success status, reading the body fails, and the monitor reports
  \<^verbatim>\<open>false\<close>.
\<close>

theorem success_status_not_enough:
  "maxAttempts_of 2 = 1 \<and> success_status env_body_lost 1 \<and>
   fst (waitForHealth env_body_lost (agent_url ''a1'') 2 fresh) = Inr False"
proof -
  have m: "maxAttempts_of 2 = 1" by (simp add: maxAttempts_of_def)
  have s: "success_status env_body_lost 1"
    by (simp add: success_status_def env_body_lost_def env_ok_def)
  have "waitForHealth env_body_lost (agent_url ''a1'') 2 fresh
      = health_loop env_body_lost (agent_url ''a1'') 1 1 fresh"
    by (simp add: waitForHealth_def m)
  also have "\<dots> = health_loop env_body_lost (agent_url ''a1'') 1 2
       (emit (attempt_effects env_body_lost (agent_url ''a1'') 1 @ [Sleep 2000]) fresh)"
    by (subst health_loop_step) simp
  also have "fst \<dots> = Inr False"
    by (subst health_loop_step) simp
  finally show ?thesis using m s by simp
qed

section \<open>The diagnostic pull of the health monitor\<close>

lemma health_loop_exit:
  "\<not> a \<le> m \<Longrightarrow> health_loop env agentUrl m a w = (Inr False, w)"
  by (subst health_loop_step) simp

lemma health_loop_refused:
  "a \<le> m \<Longrightarrow>
   health_loop env_refused agentUrl m a w
     = health_loop env_refused agentUrl m (a + 1)
         (emit [Fetch (agentUrl @ ''/health''), Sleep 2000] w)"
proof -
  have "attempt_effects env_refused agentUrl a = [Fetch (agentUrl @ ''/health'')]"
    by (simp add: attempt_effects_def env_refused_def env_ok_def)
  then show "a \<le> m \<Longrightarrow> ?thesis"
    by (subst health_loop_step) simp
qed

text \<open>
  C5 at an input where the code departs from it: the agent is deployed at
  \<^verbatim>\<open>http://localhost:3100\<close>, ten seconds are allowed and every probe is refused. The
  fifth attempt reaches the diagnostic block, whose own \<^verbatim>\<open>execAsync\<close> is \<^verbatim>\<open>undefined\<close>:
  the call raises, the inner \<^verbatim>\<open>catch\<close> swallows the error, and the five attempts leave
  five probes and five sleeps and no command at all. The loop goes on and returns
  \<^verbatim>\<open>false\<close>.
\<close>

theorem diagnostics_never_pulled:
  "fetch_container_logs ''http://localhost:3100'' fresh
     = (Inl (JsError ''execAsync is not a function''), fresh) \<and>
   waitForHealth env_refused ''http://localhost:3100'' 10 fresh
     = (Inr False,
        emit [Fetch ''http://localhost:3100/health'', Sleep 2000,
              Fetch ''http://localhost:3100/health'', Sleep 2000,
              Fetch ''http://localhost:3100/health'', Sleep 2000,
              Fetch ''http://localhost:3100/health'', Sleep 2000,
              Fetch ''http://localhost:3100/health'', Sleep 2000] fresh) \<and>
   filter is_exec (issued fresh (snd (waitForHealth env_refused ''http://localhost:3100'' 10 fresh)))
     = []"
proof -
  have m: "maxAttempts_of 10 = 5" by (simp add: maxAttempts_of_def)
  have run: "waitForHealth env_refused ''http://localhost:3100'' 10 fresh
     = (Inr False,
        emit [Fetch ''http://localhost:3100/health'', Sleep 2000,
              Fetch ''http://localhost:3100/health'', Sleep 2000,
              Fetch ''http://localhost:3100/health'', Sleep 2000,
              Fetch ''http://localhost:3100/health'', Sleep 2000,
              Fetch ''http://localhost:3100/health'', Sleep 2000] fresh)"
    by (simp add: waitForHealth_def m health_loop_refused health_loop_exit)
  show ?thesis
    by (simp add: run fetch_container_logs_throws)
qed

section \<open>Deployment: the result, the registry and the cleanup\<close>

lemma stopAgent_run:
  "\<exists>r ts reg. stopAgent env agentId w = (Inr r, emit ts w\<lparr>runningAgents := reg\<rparr>)
     \<and> (\<forall>e\<in>set ts. stop_effect e)
     \<and> (reg = runningAgents w
          \<or> r = stopped_result agentId \<and> reg = (runningAgents w)(agentId := None))"
proof (cases "runningAgents w agentId")
  case None
  then show ?thesis
    by (intro exI[of _ "\<lparr>success = False, result_agentId = None, result_url = None,
           result_status = None, error = Some ''Agent not found''\<rparr>"] exI[of _ "[]"]
           exI[of _ "runningAgents w"])
       (simp add: stopAgent_absent)
next
  case (Some a)
  show ?thesis
  proof (cases "composePath a = []")
    case True
    with Some show ?thesis
      by (intro exI[of _ "stopped_result agentId"] exI[of _ "[]"]
            exI[of _ "(runningAgents w)(agentId := None)"])
         (simp add: stopAgent_present)
  next
    case False
    show ?thesis
    proof (cases "compose_access env")
      case (Inl e)
      with Some False show ?thesis
        by (intro exI[of _ "stopped_result agentId"] exI[of _ "[Access (composePath a)]"]
              exI[of _ "(runningAgents w)(agentId := None)"])
           (simp add: stopAgent_present)
    next
      case (Inr u)
      show ?thesis
      proof (cases "compose_down env")
        case (Inl e)
        with Some False Inr show ?thesis
          by (intro exI[of _ "failure_result agentId (message e)"]
                exI[of _ "[Access (composePath a), tear_down (composePath a)]"]
                exI[of _ "runningAgents w"])
             (simp add: stopAgent_present tear_down_def emit_def)
      next
        case (Inr out)
        with Some False \<open>compose_access env = Inr u\<close> show ?thesis
          by (intro exI[of _ "stopped_result agentId"]
                exI[of _ "[Access (composePath a), tear_down (composePath a)]"]
                exI[of _ "(runningAgents w)(agentId := None)"])
             (simp add: stopAgent_present tear_down_def)
      qed
    qed
  qed
qed

lemma deploy_steps_outcome:
  "\<exists>w1 t. deploy_steps env d agentId cfg w
            = (case pipeline_failure env of
                 None \<Rightarrow> Inr (success_result agentId)
               | Some err \<Rightarrow> Inl err, w1)
     \<and> trace w1 = trace w @ t
     \<and> runningAgents w1
         = (case pipeline_failure env of
              None \<Rightarrow> (runningAgents w)(agentId \<mapsto> running_entry env d agentId)
            | Some err \<Rightarrow> runningAgents w)"
proof -
  from deploy_steps_eq [of env d agentId cfg w] obtain t where
    eq: "deploy_steps env d agentId cfg w =
     (case config_mkdir env of
        Inl e \<Rightarrow> (Inl e, emit [Mkdir (configDir d)] w)
      | Inr _ \<Rightarrow>
     (case config_write env of
        Inl e \<Rightarrow> (Inl e, emit (Mkdir (configDir d) # stale_check env d agentId
                              @ [write_config d agentId cfg]) w)
      | Inr _ \<Rightarrow>
     (case config_size env of
        Inl e \<Rightarrow> (Inl e, emit (config_effects env d agentId cfg) w)
      | Inr _ \<Rightarrow>
     (case compose_mkdir env of
        Inl e \<Rightarrow> (Inl e, emit (config_effects env d agentId cfg @ [Mkdir (composeDir d)]) w)
      | Inr _ \<Rightarrow>
     (case compose_write env of
        Inl e \<Rightarrow> (Inl e, emit (config_effects env d agentId cfg
                       @ [Mkdir (composeDir d), write_descriptor d agentId cfg]) w)
      | Inr _ \<Rightarrow>
     (case docker_build env of
        Inl e \<Rightarrow> (Inl e, emit (config_effects env d agentId cfg
                       @ [Mkdir (composeDir d), write_descriptor d agentId cfg, build_image d]) w)
      | Inr _ \<Rightarrow>
     (case compose_up env of
        Inl e \<Rightarrow> (Inl e, emit (config_effects env d agentId cfg
                       @ [Mkdir (composeDir d), write_descriptor d agentId cfg, build_image d,
                          bring_up d agentId]) w)
      | Inr _ \<Rightarrow>
        if healthy_within env 30
        then (Inr (success_result agentId),
              emit (config_effects env d agentId cfg
                       @ [Mkdir (composeDir d), write_descriptor d agentId cfg, build_image d,
                          bring_up d agentId] @ t) w
                \<lparr>runningAgents := (runningAgents w)(agentId \<mapsto> running_entry env d agentId)\<rparr>)
        else (Inl (JsError ''Agent failed health check''),
              emit (config_effects env d agentId cfg
                       @ [Mkdir (composeDir d), write_descriptor d agentId cfg, build_image d,
                          bring_up d agentId] @ t) w))))))))"
    by blast
  show ?thesis
    unfolding eq pipeline_failure_def
    by (simp split: sum.splits)
qed

lemma deployAgent_failure:
  assumes "pipeline_failure env = Some err"
  shows "\<exists>w1. deploy_steps env d agentId cfg w = (Inl err, w1)
           \<and> runningAgents w1 = runningAgents w
           \<and> deployAgent env d agentId cfg w
               = (Inr (failure_result agentId (message err)), snd (stopAgent env agentId w1))"
proof -
  from deploy_steps_outcome [of env d agentId cfg w] assms obtain w1 where
    steps: "deploy_steps env d agentId cfg w = (Inl err, w1)"
    and reg: "runningAgents w1 = runningAgents w"
    by auto
  from stopAgent_run [of env agentId w1] obtain r w2 where
    stop: "stopAgent env agentId w1 = (Inr r, w2)" by auto
  have "deployAgent env d agentId cfg w
               = (Inr (failure_result agentId (message err)), snd (stopAgent env agentId w1))"
    by (simp add: deployAgent_def io_catch_def io_bind_def io_return_def steps stop
        failure_result_def)
  with steps reg show ?thesis by (intro exI[of _ w1]) simp
qed

lemma deployAgent_success:
  assumes "pipeline_failure env = None"
  shows "\<exists>w1. deployAgent env d agentId cfg w = (Inr (success_result agentId), w1)
           \<and> runningAgents w1 = (runningAgents w)(agentId \<mapsto> running_entry env d agentId)"
proof -
  from deploy_steps_outcome [of env d agentId cfg w] assms obtain w1 where
    steps: "deploy_steps env d agentId cfg w = (Inr (success_result agentId), w1)"
    and reg: "runningAgents w1 = (runningAgents w)(agentId \<mapsto> running_entry env d agentId)"
    by auto
  then show ?thesis
    by (simp add: deployAgent_def io_catch_def)
qed

text \<open>
  What a failed deployment reports, for every environment and every state. When a
  stage of the pipeline fails, \<^verbatim>\<open>deployAgent\<close> returns (it does not raise)
  \<^verbatim>\<open>{success: false, agentId, error}\<close> with the message of the first failure, and the
  state it leaves is the one \<^verbatim>\<open>stopAgent\<close> leaves when called on the state of the failed
  pipeline, whose registry is the one the call started with; whatever \<^verbatim>\<open>stopAgent\<close>
  returns or meets does not change the message. Afterwards the registry has no entry
  for the agent if it had none before; if it had one, the entry is gone unless the
  tear-down command was issued and threw, in which case the registry is unchanged.
\<close>

theorem deployAgent_failure_reported:
  assumes "pipeline_failure env = Some err"
  shows "\<exists>w1. deploy_steps env d agentId cfg w = (Inl err, w1)
           \<and> runningAgents w1 = runningAgents w
           \<and> deployAgent env d agentId cfg w
               = (Inr (failure_result agentId (message err)), snd (stopAgent env agentId w1))
           \<and> (runningAgents w agentId = None
                \<longrightarrow> runningAgents (snd (stopAgent env agentId w1)) agentId = None)
           \<and> (runningAgents (snd (stopAgent env agentId w1)) agentId = None
                \<or> compose_access env = Inr () \<and> (\<exists>e. compose_down env = Inl e)
                   \<and> runningAgents (snd (stopAgent env agentId w1)) = runningAgents w)"
proof -
  from deployAgent_failure [OF assms, of d agentId cfg w] obtain w1 where
    steps: "deploy_steps env d agentId cfg w = (Inl err, w1)"
    and reg: "runningAgents w1 = runningAgents w"
    and res: "deployAgent env d agentId cfg w
               = (Inr (failure_result agentId (message err)), snd (stopAgent env agentId w1))"
    by blast
  have absent: "runningAgents w agentId = None
                \<longrightarrow> runningAgents (snd (stopAgent env agentId w1)) agentId = None"
    using reg by (simp add: stopAgent_absent)
  have after: "runningAgents (snd (stopAgent env agentId w1)) agentId = None
                \<or> compose_access env = Inr () \<and> (\<exists>e. compose_down env = Inl e)
                   \<and> runningAgents (snd (stopAgent env agentId w1)) = runningAgents w"
  proof (cases "runningAgents w1 agentId")
    case None
    then show ?thesis by (simp add: stopAgent_absent)
  next
    case (Some a)
    then show ?thesis
      using reg by (auto simp: stopAgent_present split: sum.splits)
  qed
  from steps reg res absent after show ?thesis
    by (intro exI[of _ w1] conjI)
qed

lemma pipeline_failure_refused:
  "pipeline_failure env_refused = Some (JsError ''Agent failed health check'')"
  by (simp add: pipeline_failure_def healthy_within_iff)
     (simp add: env_refused_def env_ok_def)

lemma pipeline_failure_docker_down:
  "pipeline_failure env_docker_down = Some (JsError ''Cannot connect to the Docker daemon'')"
  by (simp add: pipeline_failure_def env_docker_down_def env_ok_def)

theorem deployAgent_failure_reported_witness:
  "pipeline_failure env_refused = Some (JsError ''Agent failed health check'') \<and>
   fst (deployAgent env_refused example_dirs ''a1'' example_config fresh)
     = Inr (failure_result ''a1'' ''Agent failed health check'') \<and>
   runningAgents (snd (deployAgent env_refused example_dirs ''a1'' example_config fresh)) ''a1''
     = None"
proof -
  from deployAgent_failure_reported [OF pipeline_failure_refused,
      of example_dirs "''a1''" example_config fresh]
  obtain w1 where
    res: "deployAgent env_refused example_dirs ''a1'' example_config fresh
            = (Inr (failure_result ''a1'' (message (JsError ''Agent failed health check''))),
               snd (stopAgent env_refused ''a1'' w1))"
    and absent: "runningAgents fresh ''a1'' = None
                \<longrightarrow> runningAgents (snd (stopAgent env_refused ''a1'' w1)) ''a1'' = None"
    by auto
  have "runningAgents fresh ''a1'' = None" by (simp add: fresh_def)
  with absent res pipeline_failure_refused show ?thesis by simp
qed

text \<open>
  Where the agent is already registered and Docker is down, the build fails, the
  tear-down of the cleanup fails too, the result carries the build's message, and the
  entry is still in the registry.
\<close>

theorem failed_deploy_keeps_entry:
  "fst (deployAgent env_docker_down example_dirs ''a1'' example_config one_running)
     = Inr (failure_result ''a1'' ''Cannot connect to the Docker daemon'') \<and>
   runningAgents (snd (deployAgent env_docker_down example_dirs ''a1'' example_config one_running))
     ''a1'' = Some (running_entry env_ok example_dirs ''a1'')"
proof -
  from deployAgent_failure [OF pipeline_failure_docker_down,
      of example_dirs "''a1''" example_config one_running]
  obtain w1 where
    reg: "runningAgents w1 = runningAgents one_running"
    and res: "deployAgent env_docker_down example_dirs ''a1'' example_config one_running
            = (Inr (failure_result ''a1'' (message (JsError ''Cannot connect to the Docker daemon''))),
               snd (stopAgent env_docker_down ''a1'' w1))"
    by blast
  have entry: "runningAgents w1 ''a1'' = Some (running_entry env_ok example_dirs ''a1'')"
    using reg by (simp add: one_running_def)
  have p: "composePath (running_entry env_ok example_dirs ''a1'') \<noteq> []"
    by (simp add: running_entry_def compose_path_def example_dirs_def)
  have "runningAgents (snd (stopAgent env_docker_down ''a1'' w1)) = runningAgents w1"
    using p by (simp add: stopAgent_present [OF entry] env_docker_down_def env_ok_def)
  with res entry show ?thesis by simp
qed

section \<open>The registry invariant\<close>

lemma pipeline_ok_healthy: "pipeline_failure env = None \<Longrightarrow> healthy_within env 30"
  by (simp add: pipeline_failure_def split: sum.splits if_splits)

lemma deployAgent_registry:
  "(pipeline_failure env = None
      \<and> fst (deployAgent env d agentId cfg w) = Inr (success_result agentId)
      \<and> runningAgents (snd (deployAgent env d agentId cfg w))
          = (runningAgents w)(agentId \<mapsto> running_entry env d agentId))
   \<or> (\<exists>err w1. pipeline_failure env = Some err
        \<and> deploy_steps env d agentId cfg w = (Inl err, w1)
        \<and> runningAgents w1 = runningAgents w
        \<and> snd (deployAgent env d agentId cfg w) = snd (stopAgent env agentId w1))"
proof (cases "pipeline_failure env")
  case None
  from deployAgent_success [OF None, of d agentId cfg w] show ?thesis
    using None by auto
next
  case (Some err)
  from deployAgent_failure [OF Some, of d agentId cfg w] show ?thesis
    using Some by auto
qed

lemma stopAgent_registry:
  "runningAgents (snd (stopAgent env agentId w)) = runningAgents w
   \<or> fst (stopAgent env agentId w) = Inr (stopped_result agentId)
      \<and> runningAgents (snd (stopAgent env agentId w)) = (runningAgents w)(agentId := None)"
  using stopAgent_run [of env agentId w] by auto

lemma well_formed_unchanged:
  "well_formed d w \<Longrightarrow> runningAgents w1 = runningAgents w \<Longrightarrow> well_formed d w1"
  by (simp add: well_formed_def)

lemma well_formed_delete:
  "well_formed d w \<Longrightarrow> runningAgents w1 = (runningAgents w)(agentId := None)
     \<Longrightarrow> well_formed d w1"
  by (simp add: well_formed_def)

lemma well_formed_insert:
  "well_formed d w
     \<Longrightarrow> runningAgents w1 = (runningAgents w)(agentId \<mapsto> running_entry env d agentId)
     \<Longrightarrow> well_formed d w1"
  by (simp add: well_formed_def running_entry_def)

lemma well_formed_stopAgent:
  "well_formed d w \<Longrightarrow> well_formed d (snd (stopAgent env agentId w))"
  using stopAgent_registry [of env agentId w]
  by (auto intro: well_formed_unchanged well_formed_delete)

lemma well_formed_deployAgent:
  assumes "well_formed d w"
  shows "well_formed d (snd (deployAgent env d agentId cfg w))"
proof -
  from deployAgent_registry [of env d agentId cfg w] show ?thesis
  proof (elim disjE exE conjE)
    assume "runningAgents (snd (deployAgent env d agentId cfg w))
          = (runningAgents w)(agentId \<mapsto> running_entry env d agentId)"
    with assms show ?thesis by (rule well_formed_insert)
  next
    fix err w1
    assume reg: "runningAgents w1 = runningAgents w"
      and fin: "snd (deployAgent env d agentId cfg w) = snd (stopAgent env agentId w1)"
    from assms reg have "well_formed d w1" by (rule well_formed_unchanged)
    then show ?thesis unfolding fin by (rule well_formed_stopAgent)
  qed
qed

lemma reachable_well_formed: "reachable d w \<Longrightarrow> well_formed d w"
proof (induction rule: reachable.induct)
  case initial
  show ?case by (simp add: well_formed_def)
next
  case (deploy w env agentId cfg)
  then show ?case by (simp add: well_formed_deployAgent)
next
  case (stop w env agentId)
  then show ?case by (simp add: well_formed_stopAgent)
qed

lemma entry_inserted_by_deploy:
  assumes "runningAgents w x = None"
    and "runningAgents (snd (deployAgent env d agentId cfg w)) x \<noteq> None"
  shows "x = agentId \<and> healthy_within env 30
         \<and> fst (deployAgent env d agentId cfg w) = Inr (success_result agentId)"
proof -
  from deployAgent_registry [of env d agentId cfg w] show ?thesis
  proof (elim disjE exE conjE)
    assume ok: "pipeline_failure env = None"
      and res: "fst (deployAgent env d agentId cfg w) = Inr (success_result agentId)"
      and reg: "runningAgents (snd (deployAgent env d agentId cfg w))
          = (runningAgents w)(agentId \<mapsto> running_entry env d agentId)"
    from assms reg have "x = agentId" by (auto split: if_splits)
    with ok res show ?thesis by (simp add: pipeline_ok_healthy)
  next
    fix err w1
    assume reg: "runningAgents w1 = runningAgents w"
      and fin: "snd (deployAgent env d agentId cfg w) = snd (stopAgent env agentId w1)"
    from stopAgent_registry [of env agentId w1] reg assms(1)
    have "runningAgents (snd (stopAgent env agentId w1)) x = None" by auto
    with assms(2) fin show ?thesis by simp
  qed
qed

lemma entry_removed_by_stop:
  assumes "runningAgents w x \<noteq> None"
    and "runningAgents (snd (stopAgent env agentId w)) x = None"
  shows "x = agentId \<and> fst (stopAgent env agentId w) = Inr (stopped_result agentId)"
  using stopAgent_registry [of env agentId w] assms by (auto split: if_splits)

lemma entry_removed_by_deploy:
  assumes "runningAgents w x \<noteq> None"
    and "runningAgents (snd (deployAgent env d agentId cfg w)) x = None"
  shows "x = agentId
         \<and> (\<exists>err w1. deploy_steps env d agentId cfg w = (Inl err, w1)
               \<and> fst (stopAgent env agentId w1) = Inr (stopped_result agentId))"
proof -
  from deployAgent_registry [of env d agentId cfg w] show ?thesis
  proof (elim disjE exE conjE)
    assume "runningAgents (snd (deployAgent env d agentId cfg w))
          = (runningAgents w)(agentId \<mapsto> running_entry env d agentId)"
    with assms show ?thesis by (auto split: if_splits)
  next
    fix err w1
    assume steps: "deploy_steps env d agentId cfg w = (Inl err, w1)"
      and reg: "runningAgents w1 = runningAgents w"
      and fin: "snd (deployAgent env d agentId cfg w) = snd (stopAgent env agentId w1)"
    from assms reg fin have "runningAgents w1 x \<noteq> None"
      and "runningAgents (snd (stopAgent env agentId w1)) x = None" by simp_all
    then have "x = agentId \<and> fst (stopAgent env agentId w1) = Inr (stopped_result agentId)"
      by (rule entry_removed_by_stop)
    with steps show ?thesis by blast
  qed
qed

text \<open>
  C9. In every state the manager can reach from its empty registry by \<^verbatim>\<open>deployAgent\<close>
  and \<^verbatim>\<open>stopAgent\<close> calls that run one after the other, every entry of the registry has
  status \<^verbatim>\<open>running\<close>, the url derived from its agent id and the path of that agent's
  descriptor (an entry has its four fields by construction, \<^verbatim>\<open>deployedAt\<close> among them).
  From such a state, an entry that appears was written by a \<^verbatim>\<open>deployAgent\<close> for that id
  whose health check passed and which returned success; an entry that disappears was
  removed by a \<^verbatim>\<open>stopAgent\<close> for that id that returned success, called directly or as the
  cleanup of a failed \<^verbatim>\<open>deployAgent\<close>.
\<close>

theorem registry_invariant:
  assumes "reachable d w"
  shows "(\<forall>agentId a. runningAgents w agentId = Some a \<longrightarrow>
            status a = ''running'' \<and> url a = agent_url agentId
            \<and> composePath a = compose_path d agentId)
       \<and> (\<forall>env agentId cfg x.
            runningAgents w x = None
            \<and> runningAgents (snd (deployAgent env d agentId cfg w)) x \<noteq> None \<longrightarrow>
              x = agentId \<and> healthy_within env 30
              \<and> fst (deployAgent env d agentId cfg w) = Inr (success_result agentId))
       \<and> (\<forall>env agentId x.
            runningAgents w x \<noteq> None
            \<and> runningAgents (snd (stopAgent env agentId w)) x = None \<longrightarrow>
              x = agentId \<and> fst (stopAgent env agentId w) = Inr (stopped_result agentId))
       \<and> (\<forall>env agentId cfg x.
            runningAgents w x \<noteq> None
            \<and> runningAgents (snd (deployAgent env d agentId cfg w)) x = None \<longrightarrow>
              x = agentId
              \<and> (\<exists>err w1. deploy_steps env d agentId cfg w = (Inl err, w1)
                    \<and> fst (stopAgent env agentId w1) = Inr (stopped_result agentId)))"
proof (intro conjI allI impI)
  fix agentId a
  assume "runningAgents w agentId = Some a"
  with reachable_well_formed [OF assms]
  have *: "status a = ''running'' \<and> url a = agent_url agentId
        \<and> composePath a = compose_path d agentId"
    by (simp add: well_formed_def)
  from * show "status a = ''running''" by simp
  from * show "url a = agent_url agentId" by simp
  from * show "composePath a = compose_path d agentId" by simp
next
  fix env agentId cfg x
  assume "runningAgents w x = None
            \<and> runningAgents (snd (deployAgent env d agentId cfg w)) x \<noteq> None"
  then have *: "x = agentId \<and> healthy_within env 30
         \<and> fst (deployAgent env d agentId cfg w) = Inr (success_result agentId)"
    using entry_inserted_by_deploy by blast
  from * show "x = agentId" by simp
  from * show "healthy_within env 30" by simp
  from * show "fst (deployAgent env d agentId cfg w) = Inr (success_result agentId)" by simp
next
  fix env agentId x
  assume "runningAgents w x \<noteq> None
            \<and> runningAgents (snd (stopAgent env agentId w)) x = None"
  then have *: "x = agentId \<and> fst (stopAgent env agentId w) = Inr (stopped_result agentId)"
    using entry_removed_by_stop by blast
  from * show "x = agentId" by simp
  from * show "fst (stopAgent env agentId w) = Inr (stopped_result agentId)" by simp
next
  fix env agentId cfg x
  assume "runningAgents w x \<noteq> None
            \<and> runningAgents (snd (deployAgent env d agentId cfg w)) x = None"
  then have *: "x = agentId
         \<and> (\<exists>err w1. deploy_steps env d agentId cfg w = (Inl err, w1)
               \<and> fst (stopAgent env agentId w1) = Inr (stopped_result agentId))"
    using entry_removed_by_deploy by blast
  from * show "x = agentId" by simp
  from * show "\<exists>err w1. deploy_steps env d agentId cfg w = (Inl err, w1)
               \<and> fst (stopAgent env agentId w1) = Inr (stopped_result agentId)" by simp
qed

lemma pipeline_failure_ok: "pipeline_failure env_ok = None"
  by (simp add: pipeline_failure_def healthy_within_iff)
     (auto simp: env_ok_def intro: exI[of _ 1])

theorem registry_invariant_witness:
  "reachable example_dirs (snd (deployAgent env_ok example_dirs ''a1'' example_config fresh)) \<and>
   runningAgents (snd (deployAgent env_ok example_dirs ''a1'' example_config fresh)) ''a1''
     = Some (running_entry env_ok example_dirs ''a1'') \<and>
   status (running_entry env_ok example_dirs ''a1'') = ''running'' \<and>
   url (running_entry env_ok example_dirs ''a1'') = agent_url ''a1''"
proof -
  let ?w = "snd (deployAgent env_ok example_dirs ''a1'' example_config fresh)"
  have "reachable example_dirs fresh"
    unfolding fresh_def by (rule reachable.initial)
  then have r: "reachable example_dirs ?w" by (rule reachable.deploy)
  from deployAgent_success [OF pipeline_failure_ok, of example_dirs "''a1''" example_config fresh]
  have e: "runningAgents ?w ''a1'' = Some (running_entry env_ok example_dirs ''a1'')"
    by auto
  from registry_invariant [OF r] e
  have "status (running_entry env_ok example_dirs ''a1'') = ''running''
      \<and> url (running_entry env_ok example_dirs ''a1'') = agent_url ''a1''"
    by blast
  with r e show ?thesis by simp
qed

section \<open>The order of the pipeline's stages\<close>

lemma before_absent: "a \<notin> set xs \<Longrightarrow> \<not> before a b xs"
  by (induction xs) auto

lemma before_here: "before a b (a # xs) = (b \<in> set xs)"
  by simp

lemma before_skip: "a \<notin> set xs \<Longrightarrow> before a b (xs @ ys) = before a b ys"
  by (induction xs) auto

lemma before_tail: "a \<notin> set ys \<Longrightarrow> b \<notin> set ys \<Longrightarrow> before a b (xs @ ys) = before a b xs"
  by (induction xs) (auto simp: before_absent)

lemma stage_not_probe:
  "\<not> probe_effect (write_descriptor d agentId cfg)"
  "\<not> probe_effect (build_image d)"
  "\<not> probe_effect (bring_up d agentId)"
  by (simp_all add: write_descriptor_def build_image_def bring_up_def bring_up_at_def)

lemma stage_not_stop:
  "\<not> stop_effect (write_descriptor d agentId cfg)"
  "\<not> stop_effect (build_image d)"
  "\<not> stop_effect (bring_up d agentId)"
  by (simp_all add: write_descriptor_def build_image_def bring_up_def bring_up_at_def)

lemma stage_not_in_config:
  "write_descriptor d agentId cfg \<notin> set (config_effects env d agentId cfg)"
  "build_image d \<notin> set (config_effects env d agentId cfg)"
  "bring_up d agentId \<notin> set (config_effects env d agentId cfg)"
  "write_descriptor d agentId cfg \<notin> set (stale_check env d agentId)"
  "build_image d \<notin> set (stale_check env d agentId)"
  "bring_up d agentId \<notin> set (stale_check env d agentId)"
  by (auto simp: config_effects_def stale_check_def write_config_def write_descriptor_def
      build_image_def bring_up_def bring_up_at_def split: sum.splits if_splits)

lemma stages_distinct:
  "build_image d \<noteq> write_descriptor d agentId cfg"
  "bring_up d agentId \<noteq> write_descriptor d agentId cfg"
  "build_image d \<noteq> bring_up d agentId"
  "write_descriptor d agentId cfg \<noteq> Mkdir p"
  "build_image d \<noteq> Mkdir p"
  "bring_up d agentId \<noteq> Mkdir p"
  "write_descriptor d agentId cfg \<noteq> write_config d agentId cfg"
  "build_image d \<noteq> write_config d agentId cfg"
  "bring_up d agentId \<noteq> write_config d agentId cfg"
  by (simp_all add: write_config_def write_descriptor_def build_image_def bring_up_def
      bring_up_at_def)

lemma prefix_never_build_first:
  "\<not> before (build_image d) (write_descriptor d agentId cfg) (deploy_prefix env d agentId cfg)"
  by (simp add: deploy_prefix_def before_skip before_absent stage_not_in_config stages_distinct
      stages_distinct[symmetric] split: sum.split)

lemma prefix_build_gated:
  "build_image d \<in> set (deploy_prefix env d agentId cfg) \<longrightarrow>
     before (write_descriptor d agentId cfg) (build_image d) (deploy_prefix env d agentId cfg)
     \<and> compose_write env = Inr ()"
  by (simp add: deploy_prefix_def before_skip before_absent stage_not_in_config stages_distinct
      stages_distinct[symmetric] split: sum.split)

lemma prefix_up_gated:
  "bring_up d agentId \<in> set (deploy_prefix env d agentId cfg) \<longrightarrow>
     before (build_image d) (bring_up d agentId) (deploy_prefix env d agentId cfg)
     \<and> (\<exists>out. docker_build env = Inr out)"
  by (simp add: deploy_prefix_def before_skip before_absent stage_not_in_config stages_distinct
      stages_distinct[symmetric] split: sum.split)

lemma deploy_steps_issued:
  "\<exists>th r reg. deploy_steps env d agentId cfg w
       = (r, emit (deploy_prefix env d agentId cfg @ th) w\<lparr>runningAgents := reg\<rparr>)
     \<and> (\<forall>e\<in>set th. probe_effect e)"
proof -
  from deploy_steps_eq [of env d agentId cfg w] obtain t where
    eff: "\<forall>e\<in>set t. probe_effect e" and
    eq: "deploy_steps env d agentId cfg w =
     (case config_mkdir env of
        Inl e \<Rightarrow> (Inl e, emit [Mkdir (configDir d)] w)
      | Inr _ \<Rightarrow>
     (case config_write env of
        Inl e \<Rightarrow> (Inl e, emit (Mkdir (configDir d) # stale_check env d agentId
                              @ [write_config d agentId cfg]) w)
      | Inr _ \<Rightarrow>
     (case config_size env of
        Inl e \<Rightarrow> (Inl e, emit (config_effects env d agentId cfg) w)
      | Inr _ \<Rightarrow>
     (case compose_mkdir env of
        Inl e \<Rightarrow> (Inl e, emit (config_effects env d agentId cfg @ [Mkdir (composeDir d)]) w)
      | Inr _ \<Rightarrow>
     (case compose_write env of
        Inl e \<Rightarrow> (Inl e, emit (config_effects env d agentId cfg
                       @ [Mkdir (composeDir d), write_descriptor d agentId cfg]) w)
      | Inr _ \<Rightarrow>
     (case docker_build env of
        Inl e \<Rightarrow> (Inl e, emit (config_effects env d agentId cfg
                       @ [Mkdir (composeDir d), write_descriptor d agentId cfg, build_image d]) w)
      | Inr _ \<Rightarrow>
     (case compose_up env of
        Inl e \<Rightarrow> (Inl e, emit (config_effects env d agentId cfg
                       @ [Mkdir (composeDir d), write_descriptor d agentId cfg, build_image d,
                          bring_up d agentId]) w)
      | Inr _ \<Rightarrow>
        if healthy_within env 30
        then (Inr (success_result agentId),
              emit (config_effects env d agentId cfg
                       @ [Mkdir (composeDir d), write_descriptor d agentId cfg, build_image d,
                          bring_up d agentId] @ t) w
                \<lparr>runningAgents := (runningAgents w)(agentId \<mapsto> running_entry env d agentId)\<rparr>)
        else (Inl (JsError ''Agent failed health check''),
              emit (config_effects env d agentId cfg
                       @ [Mkdir (composeDir d), write_descriptor d agentId cfg, build_image d,
                          bring_up d agentId] @ t) w))))))))"
    by blast
  let ?P = "\<lambda>th. \<exists>r reg. deploy_steps env d agentId cfg w
       = (r, emit (deploy_prefix env d agentId cfg @ th) w\<lparr>runningAgents := reg\<rparr>)"
  have same: "\<And>s. \<exists>reg. emit s w = emit s w\<lparr>runningAgents := reg\<rparr>"
    by (rule exI[of _ "runningAgents w"]) (simp add: emit_def)
  show ?thesis
  proof (cases "\<exists>x1 x2 x3 x4 x5 x6 x7. config_mkdir env = Inr x1 \<and> config_write env = Inr x2
      \<and> config_size env = Inr x3 \<and> compose_mkdir env = Inr x4 \<and> compose_write env = Inr x5
      \<and> docker_build env = Inr x6 \<and> compose_up env = Inr x7")
    case True
    then have "?P t"
      unfolding eq deploy_prefix_def
      by (cases "healthy_within env 30") (auto simp: same)
    with eff show ?thesis by blast
  next
    case False
    then have "?P []"
      unfolding eq deploy_prefix_def
      by (auto split: sum.splits simp: same)
    then show ?thesis by (intro exI[of _ "[]"]) simp
  qed
qed

lemma issued_two_runs [simp]:
  "issued w (emit ts (emit t w\<lparr>runningAgents := r\<rparr>)\<lparr>runningAgents := r1\<rparr>) = t @ ts"
  by (simp add: issued_def emit_def)

lemma deployAgent_issued:
  "\<exists>rest. issued w (snd (deployAgent env d agentId cfg w)) = deploy_prefix env d agentId cfg @ rest
     \<and> (\<forall>e\<in>set rest. probe_effect e \<or> stop_effect e)"
proof -
  from deploy_steps_issued [of env d agentId cfg w] obtain th r reg where
    steps: "deploy_steps env d agentId cfg w
       = (r, emit (deploy_prefix env d agentId cfg @ th) w\<lparr>runningAgents := reg\<rparr>)"
    and eff: "\<forall>e\<in>set th. probe_effect e"
    by blast
  let ?w1 = "emit (deploy_prefix env d agentId cfg @ th) w\<lparr>runningAgents := reg\<rparr>"
  show ?thesis
  proof (cases r)
    case (Inr x)
    then have "snd (deployAgent env d agentId cfg w) = ?w1"
      by (simp add: deployAgent_def io_catch_def steps)
    then have "issued w (snd (deployAgent env d agentId cfg w)) = deploy_prefix env d agentId cfg @ th"
      by simp
    with eff show ?thesis by blast
  next
    case (Inl err)
    from stopAgent_run [of env agentId ?w1] obtain r2 ts reg2 where
      stop: "stopAgent env agentId ?w1 = (Inr r2, emit ts ?w1\<lparr>runningAgents := reg2\<rparr>)"
      and seff: "\<forall>e\<in>set ts. stop_effect e"
      by blast
    have "snd (deployAgent env d agentId cfg w) = snd (stopAgent env agentId ?w1)"
      using Inl by (simp add: deployAgent_def io_catch_def io_bind_def io_return_def steps
          split: prod.splits sum.splits)
    then have "issued w (snd (deployAgent env d agentId cfg w))
        = issued w (emit ts ?w1\<lparr>runningAgents := reg2\<rparr>)"
      by (simp only: stop snd_conv)
    then have "issued w (snd (deployAgent env d agentId cfg w))
        = deploy_prefix env d agentId cfg @ (th @ ts)"
      by (simp only: issued_two_runs append_assoc)
    moreover have "\<forall>e\<in>set (th @ ts). probe_effect e \<or> stop_effect e"
      using eff seff by auto
    ultimately show ?thesis by blast
  qed
qed

lemma stage_not_in_rest:
  assumes "\<forall>e\<in>set rest. probe_effect e \<or> stop_effect e"
  shows "write_descriptor d agentId cfg \<notin> set rest"
    and "build_image d \<notin> set rest"
    and "bring_up d agentId \<notin> set rest"
  using assms stage_not_probe stage_not_stop by blast+

lemma pipeline_ok_prefix:
  "pipeline_failure env = None \<Longrightarrow>
   deploy_prefix env d agentId cfg
     = config_effects env d agentId cfg
         @ [Mkdir (composeDir d), write_descriptor d agentId cfg, build_image d,
            bring_up d agentId]"
  by (simp add: pipeline_failure_def deploy_prefix_def split: sum.splits)

text \<open>
  C4, as the code has it. Of the three stages, the descriptor is written first, the
  image is built next and the bring-up command comes last, each issued only when the
  stage before it succeeded: in what a \<^verbatim>\<open>deployAgent\<close> call issues, a build is preceded
  by the descriptor write, which succeeded; a bring-up is preceded by the build, which
  succeeded; no descriptor write follows a build; and a pipeline without failure
  issues the bring-up.
\<close>

theorem pipeline_order:
  "(build_image d \<in> set (issued w (snd (deployAgent env d agentId cfg w))) \<longrightarrow>
      before (write_descriptor d agentId cfg) (build_image d)
        (issued w (snd (deployAgent env d agentId cfg w)))
      \<and> compose_write env = Inr ())
   \<and> (bring_up d agentId \<in> set (issued w (snd (deployAgent env d agentId cfg w))) \<longrightarrow>
      before (build_image d) (bring_up d agentId)
        (issued w (snd (deployAgent env d agentId cfg w)))
      \<and> (\<exists>out. docker_build env = Inr out))
   \<and> \<not> before (build_image d) (write_descriptor d agentId cfg)
        (issued w (snd (deployAgent env d agentId cfg w)))
   \<and> (pipeline_failure env = None \<longrightarrow>
        bring_up d agentId \<in> set (issued w (snd (deployAgent env d agentId cfg w))))"
proof -
  from deployAgent_issued [of w env d agentId cfg] obtain rest where
    t: "issued w (snd (deployAgent env d agentId cfg w)) = deploy_prefix env d agentId cfg @ rest"
    and rest: "\<forall>e\<in>set rest. probe_effect e \<or> stop_effect e"
    by blast
  note out = stage_not_in_rest [OF rest]
  have b1: "before (write_descriptor d agentId cfg) (build_image d) (deploy_prefix env d agentId cfg @ rest)
      = before (write_descriptor d agentId cfg) (build_image d) (deploy_prefix env d agentId cfg)"
    using out by (simp add: before_tail)
  have b2: "before (build_image d) (bring_up d agentId) (deploy_prefix env d agentId cfg @ rest)
      = before (build_image d) (bring_up d agentId) (deploy_prefix env d agentId cfg)"
    using out by (simp add: before_tail)
  have b3: "before (build_image d) (write_descriptor d agentId cfg) (deploy_prefix env d agentId cfg @ rest)
      = before (build_image d) (write_descriptor d agentId cfg) (deploy_prefix env d agentId cfg)"
    using out by (simp add: before_tail)
  have m1: "build_image d \<in> set (deploy_prefix env d agentId cfg @ rest)
      \<longleftrightarrow> build_image d \<in> set (deploy_prefix env d agentId cfg)"
    using out by simp
  have m2: "bring_up d agentId \<in> set (deploy_prefix env d agentId cfg @ rest)
      \<longleftrightarrow> bring_up d agentId \<in> set (deploy_prefix env d agentId cfg)"
    using out by simp
  have last: "pipeline_failure env = None \<longrightarrow> bring_up d agentId \<in> set (deploy_prefix env d agentId cfg)"
    by (simp add: pipeline_ok_prefix)
  show ?thesis
    unfolding t b1 b2 b3 m1 m2
    using prefix_never_build_first [of d agentId cfg env] prefix_build_gated [of d env agentId cfg]
      prefix_up_gated [of d agentId env cfg] last
    by blast
qed

lemma before_first: "before a b t \<Longrightarrow> a \<in> set t"
  by (rule ccontr) (simp add: before_absent)

theorem pipeline_order_witness:
  "pipeline_failure env_ok = None \<and>
   before (write_descriptor example_dirs ''a1'' example_config) (build_image example_dirs)
     (issued fresh (snd (deployAgent env_ok example_dirs ''a1'' example_config fresh))) \<and>
   before (build_image example_dirs) (bring_up example_dirs ''a1'')
     (issued fresh (snd (deployAgent env_ok example_dirs ''a1'' example_config fresh)))"
proof -
  let ?t = "issued fresh (snd (deployAgent env_ok example_dirs ''a1'' example_config fresh))"
  note order = pipeline_order [of example_dirs fresh env_ok "''a1''" example_config]
  from order pipeline_failure_ok have "bring_up example_dirs ''a1'' \<in> set ?t" by blast
  with order have up: "before (build_image example_dirs) (bring_up example_dirs ''a1'') ?t"
    by blast
  then have "build_image example_dirs \<in> set ?t" by (rule before_first)
  with order have "before (write_descriptor example_dirs ''a1'' example_config)
      (build_image example_dirs) ?t"
    by blast
  with up pipeline_failure_ok show ?thesis by simp
qed

text \<open>
  The order the specification states, build first and descriptor second, is not the
  code's: in a deployment where every stage succeeds both are issued, and the
  descriptor write does not come after the build.
\<close>

theorem build_is_not_first:
  "build_image example_dirs
     \<in> set (issued fresh (snd (deployAgent env_ok example_dirs ''a1'' example_config fresh))) \<and>
   write_descriptor example_dirs ''a1'' example_config
     \<in> set (issued fresh (snd (deployAgent env_ok example_dirs ''a1'' example_config fresh))) \<and>
   \<not> before (build_image example_dirs) (write_descriptor example_dirs ''a1'' example_config)
       (issued fresh (snd (deployAgent env_ok example_dirs ''a1'' example_config fresh)))"
proof -
  from deployAgent_issued [of fresh env_ok example_dirs "''a1''" example_config] obtain rest where
    t: "issued fresh (snd (deployAgent env_ok example_dirs ''a1'' example_config fresh))
          = deploy_prefix env_ok example_dirs ''a1'' example_config @ rest"
    and rest: "\<forall>e\<in>set rest. probe_effect e \<or> stop_effect e"
    by blast
  note out = stage_not_in_rest [OF rest]
  have "\<not> before (build_image example_dirs) (write_descriptor example_dirs ''a1'' example_config)
       (deploy_prefix env_ok example_dirs ''a1'' example_config @ rest)"
    using out prefix_never_build_first [of example_dirs "''a1''" example_config env_ok]
    by (simp add: before_tail)
  then show ?thesis
    unfolding t by (simp add: pipeline_ok_prefix [OF pipeline_failure_ok])
qed

section \<open>The cleanup of a first deployment\<close>

lemma cleanup_without_entry:
  assumes "pipeline_failure env = Some err" and "runningAgents w agentId = None"
  shows "deployAgent env d agentId cfg w
           = (Inr (failure_result agentId (message err)), snd (deploy_steps env d agentId cfg w))"
proof -
  from deployAgent_failure [OF assms(1), of d agentId cfg w] obtain w1 where
    steps: "deploy_steps env d agentId cfg w = (Inl err, w1)"
    and reg: "runningAgents w1 = runningAgents w"
    and res: "deployAgent env d agentId cfg w
               = (Inr (failure_result agentId (message err)), snd (stopAgent env agentId w1))"
    by blast
  have "runningAgents w1 agentId = None" using reg assms(2) by simp
  then have "snd (stopAgent env agentId w1) = w1" by (simp add: stopAgent_absent)
  with res steps show ?thesis by simp
qed

lemma probe_not_stop: "probe_effect e \<Longrightarrow> \<not> stop_effect e"
  by (cases e) simp_all

lemma prefix_no_stop_effect: "\<forall>e\<in>set (deploy_prefix env d agentId cfg). \<not> stop_effect e"
  by (auto simp: deploy_prefix_def config_effects_def stale_check_def write_config_def
      write_descriptor_def build_image_def bring_up_def bring_up_at_def
      split: sum.splits if_splits)

lemma stop_effect_tear_down [simp]: "stop_effect (tear_down p)"
  by (simp add: tear_down_def)

lemma pipeline_reaches_health:
  "deploy_prefix env_refused d agentId cfg
     = config_effects env_refused d agentId cfg
         @ [Mkdir (composeDir d), write_descriptor d agentId cfg, build_image d,
            bring_up d agentId]"
  by (simp add: deploy_prefix_def env_refused_def env_ok_def)

text \<open>
  C1 at an input where the code departs from it: the first deployment of agent
  \<^verbatim>\<open>a1\<close>, on an empty registry, where every stage up to the bring-up succeeds and every
  health probe is refused. \<^verbatim>\<open>deployAgent\<close> returns \<^verbatim>\<open>{success: false, agentId, error}\<close> with
  the message of the health check, as claimed, and it does call \<^verbatim>\<open>stopAgent\<close>; but the
  registry is written only after a health check that passed, so \<^verbatim>\<open>stopAgent\<close> finds no
  entry and returns before its tear-down command. The state the call leaves is the
  state the failed pipeline left: the bring-up command was issued, and neither an
  access check nor a tear-down command follows it.
\<close>

theorem failed_first_deploy_tears_nothing_down:
  "fst (deployAgent env_refused example_dirs ''a1'' example_config fresh)
     = Inr (failure_result ''a1'' ''Agent failed health check'') \<and>
   snd (deployAgent env_refused example_dirs ''a1'' example_config fresh)
     = snd (deploy_steps env_refused example_dirs ''a1'' example_config fresh) \<and>
   bring_up example_dirs ''a1''
     \<in> set (issued fresh (snd (deployAgent env_refused example_dirs ''a1'' example_config fresh))) \<and>
   tear_down (compose_path example_dirs ''a1'')
     \<notin> set (issued fresh (snd (deployAgent env_refused example_dirs ''a1'' example_config fresh))) \<and>
   filter stop_effect
     (issued fresh (snd (deployAgent env_refused example_dirs ''a1'' example_config fresh))) = []"
proof -
  let ?t = "issued fresh (snd (deployAgent env_refused example_dirs ''a1'' example_config fresh))"
  have none: "runningAgents fresh ''a1'' = None" by (simp add: fresh_def)
  note res = cleanup_without_entry [OF pipeline_failure_refused none, of example_dirs example_config]
  from deploy_steps_issued [of env_refused example_dirs "''a1''" example_config fresh]
  obtain th r reg where
    steps: "deploy_steps env_refused example_dirs ''a1'' example_config fresh
       = (r, emit (deploy_prefix env_refused example_dirs ''a1'' example_config @ th) fresh
               \<lparr>runningAgents := reg\<rparr>)"
    and eff: "\<forall>e\<in>set th. probe_effect e"
    by blast
  have t: "?t = deploy_prefix env_refused example_dirs ''a1'' example_config @ th"
    by (simp add: res steps)
  have up: "bring_up example_dirs ''a1'' \<in> set ?t"
    unfolding t by (simp add: pipeline_reaches_health)
  have "\<forall>e\<in>set ?t. \<not> stop_effect e"
    unfolding t using eff prefix_no_stop_effect probe_not_stop by auto
  then have quiet: "filter stop_effect ?t = []"
    by (simp add: filter_empty_conv)
  then have down: "tear_down (compose_path example_dirs ''a1'') \<notin> set ?t"
    by (auto simp: filter_empty_conv)
  from res steps up down quiet show ?thesis by simp
qed

section \<open>The published port\<close>























section \<open>Stop and pause\<close>




lemma same_but_label_refl [simp]: "same_but_label a a"
  by (simp add: same_but_label_def)

lemma same_but_label_stop_pause [simp]:
  "same_but_label
     (a\<lparr>agent_status := ''stopped'', stoppedAt := Some now1, updatedAt := now2,
        containerUrl := None\<rparr>)
     (a\<lparr>agent_status := ''paused'', pausedAt := Some now1, updatedAt := now2,
        containerUrl := None\<rparr>)"
  by (simp add: same_but_label_def)






section \<open>Disconnecting from a followed log\<close>

lemma leaked_stays_running:
  assumes "followProcess c = Some Running" and "request_closed c"
    and "ProcessClose \<notin> set events"
  shows "followProcess (foldl follow_step c events) = Some Running
       \<and> request_closed (foldl follow_step c events)"
  using assms
proof (induction events arbitrary: c)
  case Nil
  then show ?case by simp
next
  case (Cons e events)
  have "followProcess (follow_step c e) = Some Running \<and> request_closed (follow_step c e)"
    using Cons.prems by (cases e) (simp_all add: alive_def)
  with Cons show ?case by simp
qed

lemma disconnect_while_following:
  assumes "followProcess c = Some Running" and "close_listener c" and "\<not> request_closed c"
  shows "followProcess (follow_step c RequestClose) = Some Killed"
  using assms by (simp add: kill_def)

text \<open>
  C7 at an input where the code departs from it: the consumer disconnects while the
  handler still awaits the first \<^verbatim>\<open>docker logs --tail\<close>. The request's \<^verbatim>\<open>close\<close> fires
  with no listener registered; the handler then spawns \<^verbatim>\<open>docker logs -f\<close> and registers
  a listener for an event that will not fire again, and the process is left running,
  whatever output follows. A disconnect that comes after the listeners are
  registered does kill the process.
\<close>

theorem follow_process_leaks:
  "followProcess (follow_run [RequestClose, InitialLogs (Inr quiet)]) = Some Running \<and>
   request_closed (follow_run [RequestClose, InitialLogs (Inr quiet)]) \<and>
   followProcess
     (follow_run [RequestClose, InitialLogs (Inr quiet), StdoutData ''tick'', StderrData ''tock'',
                  RequestClose])
     = Some Running \<and>
   followProcess (follow_run [InitialLogs (Inr quiet), StdoutData ''tick'', RequestClose])
     = Some Killed"
  by (simp add: follow_run_def follow_start_def kill_def alive_def)

section \<open>Further properties of the manager\<close>

text \<open>
  Whatever the environment does, \<^verbatim>\<open>waitForHealth\<close> starts no process: the diagnostic
  command of its fifth attempts is never run.
\<close>

theorem waitForHealth_runs_no_command:
  "filter is_exec (issued w (snd (waitForHealth env agentUrl timeoutSeconds w))) = []"
proof -
  from waitForHealth_run [of env agentUrl timeoutSeconds w] obtain t where
    run: "waitForHealth env agentUrl timeoutSeconds w
            = (Inr (healthy_within env (maxAttempts_of timeoutSeconds)), emit t w)"
    and eff: "\<forall>e\<in>set t. probe_effect e"
    by blast
  have "\<And>e. probe_effect e \<Longrightarrow> \<not> is_exec e"
  proof -
    fix e show "probe_effect e \<Longrightarrow> \<not> is_exec e" by (cases e) simp_all
  qed
  with eff have "filter is_exec t = []" by (simp add: filter_empty_conv)
  then show ?thesis by (simp add: run)
qed

text \<open>\<^verbatim>\<open>deployAgent\<close> returns a result for every environment: it never raises.\<close>

theorem deployAgent_always_returns:
  "\<exists>r. fst (deployAgent env d agentId cfg w) = Inr r"
proof (cases "pipeline_failure env")
  case None
  from deployAgent_success [OF None, of d agentId cfg w] show ?thesis by auto
next
  case (Some err)
  from deployAgent_failure [OF Some, of d agentId cfg w] show ?thesis by auto
qed

text \<open>
  A deployment whose every stage succeeds returns \<^verbatim>\<open>{success: true, agentId, url, status:
  'running'}\<close> and leaves the registry with the entry of that agent set and every other
  entry as it was.
\<close>

theorem deployAgent_success_registers:
  assumes "pipeline_failure env = None"
  shows "fst (deployAgent env d agentId cfg w) = Inr (success_result agentId)
       \<and> runningAgents (snd (deployAgent env d agentId cfg w))
           = (runningAgents w)(agentId \<mapsto> running_entry env d agentId)"
  using deployAgent_success [OF assms, of d agentId cfg w] by auto

theorem deployAgent_success_registers_witness:
  "pipeline_failure env_ok = None \<and>
   fst (deployAgent env_ok example_dirs ''a1'' example_config fresh) = Inr (success_result ''a1'') \<and>
   runningAgents (snd (deployAgent env_ok example_dirs ''a1'' example_config fresh))
     = [''a1'' \<mapsto> running_entry env_ok example_dirs ''a1'']"
  using pipeline_failure_ok
    deployAgent_success_registers [OF pipeline_failure_ok, of example_dirs "''a1''" example_config fresh]
  by (simp add: fresh_def)

end
